theory Spec2Isabelle
  imports Complex_Main
begin

section \<open>Python values used by \<open>twscrape/imap.py\<close>\<close>

text \<open>
  Exceptions are values. The builtin ones are those the module's own expressions can
  raise; \<open>IMAP4_error\<close> stands for \<open>imaplib.IMAP4.error\<close> and its subclasses,
  \<open>OtherError\<close> for any other exception a collaborator raises (socket errors and the
  like). \<open>EmailLoginError\<close> carries its message and the exception it was raised from
  (\<open>raise EmailLoginError() from e\<close>), \<open>EmailCodeTimeoutError\<close> its message.
\<close>

datatype exn =
    IndexError
  | ValueError
  | TypeError
  | AttributeError
  | UnicodeDecodeError
  | IMAP4_error string
  | OtherError string
  | EmailLoginError string exn
  | EmailCodeTimeoutError string

text \<open>
  Strings are character lists. The model covers ASCII text: \<open>lower\<close>, \<open>strip\<close> and the
  \<open>\w\<close> class of the regular expression are the ASCII parts of Python's.
\<close>

text \<open>\<open>s.split(sep)\<close> for a separator of one character: never an empty list.\<close>

fun split_chr :: "char \<Rightarrow> string \<Rightarrow> string list" where
  "split_chr sep [] = [[]]"
| "split_chr sep (c # cs) =
     (if c = sep then [] # split_chr sep cs
      else (case split_chr sep cs of
              [] \<Rightarrow> [[c]]
            | w # ws \<Rightarrow> (c # w) # ws))"

text \<open>\<open>xs[i]\<close> for \<open>i \<ge> 0\<close>, and \<open>xs[-1]\<close>: out of range raises IndexError.\<close>

definition py_index :: "'a list \<Rightarrow> nat \<Rightarrow> exn + 'a" where
  "py_index xs i = (if i < length xs then Inr (xs ! i) else Inl IndexError)"

definition py_last :: "'a list \<Rightarrow> exn + 'a" where
  "py_last xs = (if xs = [] then Inl IndexError else Inr (last xs))"

section \<open>Domain resolver\<close>

text \<open>The module-level dictionary \<open>IMAP_MAPPING\<close>, as the module's import leaves it.\<close>

type_synonym mapping = "string \<rightharpoonup> string"

definition IMAP_MAPPING :: mapping where
  "IMAP_MAPPING =
     [''yahoo.com'' \<mapsto> ''imap.mail.yahoo.com'',
      ''icloud.com'' \<mapsto> ''imap.mail.me.com'',
      ''outlook.com'' \<mapsto> ''imap-mail.outlook.com'',
      ''hotmail.com'' \<mapsto> ''imap-mail.outlook.com'',
      ''proton.me'' \<mapsto> ''127.0.0.1:1143'']"

text \<open>\<open>add_imap_mapping\<close> assigns into the dictionary; the model returns the new one.\<close>

definition add_imap_mapping :: "mapping \<Rightarrow> string \<Rightarrow> string \<Rightarrow> mapping" where
  "add_imap_mapping m email_domain imap_domain = m(email_domain \<mapsto> imap_domain)"

definition get_imap_domain :: "mapping \<Rightarrow> string \<Rightarrow> exn + string" where
  "get_imap_domain m email =
     (case py_index (split_chr CHR ''@'' email) 1 of
        Inl e \<Rightarrow> Inl e
      | Inr email_domain \<Rightarrow>
          (case m email_domain of
             Some imap_domain \<Rightarrow> Inr imap_domain
           | None \<Rightarrow> Inr (''imap.'' @ email_domain)))"

text \<open>
  A process as the resolver sees it: a sequence of registrations and resolutions run
  against the shared dictionary. A resolution reads the dictionary and leaves it as it is.
\<close>

datatype resolver_call = Register string string | Resolve string

fun run_call :: "mapping \<Rightarrow> resolver_call \<Rightarrow> mapping" where
  "run_call m (Register d e) = add_imap_mapping m d e"
| "run_call m (Resolve email) = m"

definition run_calls :: "mapping \<Rightarrow> resolver_call list \<Rightarrow> mapping" where
  "run_calls m cs = foldl run_call m cs"

text \<open>
  The domain of an address in the words of the specification: the text between the first
  and the second \<open>@\<close>, which is all the text after the first \<open>@\<close> when there is no
  second one. Used only to state what \<open>get_imap_domain\<close> takes as the domain.
\<close>

definition spec_domain_segment :: "string \<Rightarrow> string" where
  "spec_domain_segment email =
     takeWhile (\<lambda>c. c \<noteq> CHR ''@'') (tl (dropWhile (\<lambda>c. c \<noteq> CHR ''@'') email))"

section \<open>Strings\<close>

text \<open>\<open>s.lower()\<close>, on the ASCII letters.\<close>

definition lower_chr :: "char \<Rightarrow> char" where
  "lower_chr c =
     (case map_of (zip ''ABCDEFGHIJKLMNOPQRSTUVWXYZ'' ''abcdefghijklmnopqrstuvwxyz'') c of
        Some l \<Rightarrow> l
      | None \<Rightarrow> c)"

definition lower :: "string \<Rightarrow> string" where
  "lower s = map lower_chr s"

text \<open>
  \<open>s.strip()\<close>: the whitespace of \<open>str\<close> in the ASCII range is the space, \<open>\t \n \v \f \r\<close>
  and the separators \<open>0x1c\<close> to \<open>0x1f\<close>.
\<close>

definition is_space :: "char \<Rightarrow> bool" where
  "is_space c \<longleftrightarrow>
     c \<in> set [CHR '' '', CHR 0x09, CHR 0x0A, CHR 0x0B, CHR 0x0C, CHR 0x0D,
                CHR 0x1C, CHR 0x1D, CHR 0x1E, CHR 0x1F]"

definition strip :: "string \<Rightarrow> string" where
  "strip s = rev (dropWhile is_space (rev (dropWhile is_space s)))"

text \<open>\<open>needle in hay\<close> for strings.\<close>

fun contains :: "string \<Rightarrow> string \<Rightarrow> bool" where
  "contains needle [] = (needle = [])"
| "contains needle (c # cs) =
     (take (length needle) (c # cs) = needle \<or> contains needle cs)"

text \<open>\<open>str(x)\<close> where \<open>x\<close> is a string or \<open>None\<close>.\<close>

definition str_opt :: "string option \<Rightarrow> string" where
  "str_opt x = (case x of None \<Rightarrow> ''None'' | Some s \<Rightarrow> s)"

text \<open>\<open>str(i)\<close> for an integer: decimal digits, a leading minus sign when negative.\<close>

definition digit_chr :: "nat \<Rightarrow> char" where
  "digit_chr d = ''0123456789'' ! d"

fun str_nat :: "nat \<Rightarrow> string" where
  "str_nat n = (if n < 10 then [digit_chr n] else str_nat (n div 10) @ [digit_chr (n mod 10)])"

declare str_nat.simps [simp del]

definition str_int :: "int \<Rightarrow> string" where
  "str_int i = (if i < 0 then CHR ''-'' # str_nat (nat (- i)) else str_nat (nat i))"

text \<open>
  \<open>int(s)\<close> for a string: surrounding whitespace is dropped, a sign may lead, and the
  digits may be grouped by single underscores. \<open>None\<close> stands for the ValueError.
  The whitespace \<open>int\<close> skips in an ASCII string is the space and \<open>\t \n \v \f \r\<close>
  only: the separators \<open>0x1c\<close> to \<open>0x1f\<close>, which \<open>strip\<close> removes, are not skipped.
  A string of more than 4300 digits (the interpreter's default limit, underscores not
  counted) is refused with a ValueError too.
\<close>

definition is_int_space :: "char \<Rightarrow> bool" where
  "is_int_space c \<longleftrightarrow>
     c \<in> set [CHR '' '', CHR 0x09, CHR 0x0A, CHR 0x0B, CHR 0x0C, CHR 0x0D]"

definition int_strip :: "string \<Rightarrow> string" where
  "int_strip s = rev (dropWhile is_int_space (rev (dropWhile is_int_space s)))"

definition max_str_digits :: nat where
  "max_str_digits = 4300"

definition is_digit :: "char \<Rightarrow> bool" where
  "is_digit c \<longleftrightarrow> c \<in> set ''0123456789''"

definition digit_val :: "char \<Rightarrow> int" where
  "digit_val c = int (length (takeWhile (\<lambda>d. d \<noteq> c) ''0123456789''))"

definition digits_val :: "string \<Rightarrow> int option" where
  "digits_val ds =
     (let groups = split_chr CHR ''_'' ds in
      if list_all (\<lambda>g. g \<noteq> [] \<and> list_all is_digit g) groups
         \<and> length (concat groups) \<le> max_str_digits
      then Some (foldl (\<lambda>a c. 10 * a + digit_val c) 0 (concat groups))
      else None)"

definition py_int :: "string \<Rightarrow> int option" where
  "py_int s =
     (case int_strip s of
        [] \<Rightarrow> None
      | c # cs \<Rightarrow>
          if c = CHR ''-'' then map_option uminus (digits_val cs)
          else if c = CHR ''+'' then digits_val cs
          else digits_val (c # cs))"

text \<open>
  \<open>b.decode("utf-8")\<close> on bytes that are ASCII. Bytes outside ASCII are outside the
  model, which reports them as undecodable.
\<close>

definition utf8_decode :: "string \<Rightarrow> string option" where
  "utf8_decode b = (if list_all (\<lambda>c. (of_char c :: nat) < 128) b then Some b else None)"

section \<open>The timeout setting\<close>

text \<open>
  \<open>TWS_WAIT_EMAIL_CODE\<close> is computed when the module is imported, from the values of
  the environment variables \<open>TWS_WAIT_EMAIL_CODE\<close> and \<open>LOGIN_CODE_TIMEOUT\<close>
  (\<open>None\<close> when unset) and the integer 30: the list comprehension converts every entry
  that is not \<open>None\<close> with \<open>int\<close>, in order, and the first element of the result is taken.
\<close>

datatype pyval = StrVal string | IntVal int

definition int_of_pyval :: "pyval \<Rightarrow> exn + int" where
  "int_of_pyval x =
     (case x of
        IntVal n \<Rightarrow> Inr n
      | StrVal s \<Rightarrow> (case py_int s of None \<Rightarrow> Inl ValueError | Some n \<Rightarrow> Inr n))"

fun convert_all :: "pyval list \<Rightarrow> exn + int list" where
  "convert_all [] = Inr []"
| "convert_all (x # xs) =
     (case int_of_pyval x of
        Inl e \<Rightarrow> Inl e
      | Inr n \<Rightarrow> (case convert_all xs of Inl e \<Rightarrow> Inl e | Inr ns \<Rightarrow> Inr (n # ns)))"

definition TWS_WAIT_EMAIL_CODE :: "string option \<Rightarrow> string option \<Rightarrow> exn + int" where
  "TWS_WAIT_EMAIL_CODE tws_wait_email_code login_code_timeout =
     (case convert_all
             (List.map_filter (\<lambda>x. x)
                [map_option StrVal tws_wait_email_code, map_option StrVal login_code_timeout,
                 Some (IntVal 30)]) of
        Inl e \<Rightarrow> Inl e
      | Inr xs \<Rightarrow> py_index xs 0)"

section \<open>Messages\<close>

text \<open>
  A message as \<open>email.message_from_bytes\<close> hands it to the module. A part is either a
  leaf with a payload or a multipart container; each carries the value of
  \<open>get_content_type()\<close> and its \<open>Content-Disposition\<close> header (\<open>None\<close> when absent).
  The payload of a leaf records what \<open>get_payload(decode=True).decode()\<close> gives: the
  text, or a UnicodeDecodeError when the bytes are not UTF-8.
\<close>

datatype payload = Text string | Undecodable

datatype mime_part =
    Single string "string option" payload
  | Multi string "string option" "mime_part list"

fun get_content_type :: "mime_part \<Rightarrow> string" where
  "get_content_type (Single ctype cdispo p) = ctype"
| "get_content_type (Multi ctype cdispo ps) = ctype"

fun get_content_disposition :: "mime_part \<Rightarrow> string option" where
  "get_content_disposition (Single ctype cdispo p) = cdispo"
| "get_content_disposition (Multi ctype cdispo ps) = cdispo"

fun is_multipart :: "mime_part \<Rightarrow> bool" where
  "is_multipart (Single ctype cdispo p) = False"
| "is_multipart (Multi ctype cdispo ps) = True"

text \<open>\<open>msg.walk()\<close>: the part itself, then its subparts depth first, in order.\<close>

fun walk :: "mime_part \<Rightarrow> mime_part list" where
  "walk (Single ctype cdispo p) = [Single ctype cdispo p]"
| "walk (Multi ctype cdispo ps) = Multi ctype cdispo ps # concat (map walk ps)"

text \<open>
  \<open>part.get_payload(decode=True)\<close> followed by \<open>.decode()\<close>. For a container the first
  call returns \<open>None\<close>, and calling \<open>decode\<close> on it raises AttributeError.
\<close>

fun decoded_payload :: "mime_part \<Rightarrow> exn + string" where
  "decoded_payload (Single ctype cdispo (Text s)) = Inr s"
| "decoded_payload (Single ctype cdispo Undecodable) = Inl UnicodeDecodeError"
| "decoded_payload (Multi ctype cdispo ps) = Inl AttributeError"

record email_message =
  hdr_date :: "string option"
  hdr_from :: "string option"
  hdr_subject :: "string option"
  content :: mime_part

text \<open>\<open>msg.get(name, "")\<close> for a header.\<close>

definition get_or_empty :: "string option \<Rightarrow> string" where
  "get_or_empty h = (case h of None \<Rightarrow> [] | Some v \<Rightarrow> v)"

record EmailCodeResult =
  code :: string
  username :: "string option"

section \<open>Extraction of the account name\<close>

text \<open>
  The loop of \<open>_extract_username\<close> over the parts of a multipart message: \<open>body\<close> is
  assigned at every \<open>text/plain\<close> part whose disposition does not contain
  \<open>attachment\<close>, and the loop runs to the end of the walk.
\<close>

definition plain_not_attachment :: "mime_part \<Rightarrow> bool" where
  "plain_not_attachment part \<longleftrightarrow>
     get_content_type part = ''text/plain''
     \<and> \<not> contains ''attachment'' (str_opt (get_content_disposition part))"

fun walk_loop :: "string \<Rightarrow> mime_part list \<Rightarrow> exn + string" where
  "walk_loop body [] = Inr body"
| "walk_loop body (part # parts) =
     (if plain_not_attachment part
      then (case decoded_payload part of
              Inl e \<Rightarrow> Inl e
            | Inr b \<Rightarrow> walk_loop b parts)
      else walk_loop body parts)"

text \<open>
  \<open>re.search(r"to log in to your account @(\w+)", body)\<close>, returning group 1: the
  leftmost place where the literal text is followed by at least one word character, and
  the longest run of word characters there. Word characters are the ASCII ones.
\<close>

definition is_word :: "char \<Rightarrow> bool" where
  "is_word c \<longleftrightarrow>
     c \<in> set ''abcdefghijklmnopqrstuvwxyzABCDEFGHIJKLMNOPQRSTUVWXYZ0123456789_''"

definition username_prefix :: string where
  "username_prefix = ''to log in to your account @''"

fun search_username :: "string \<Rightarrow> string option" where
  "search_username [] = None"
| "search_username (c # cs) =
     (let w = takeWhile is_word (drop (length username_prefix) (c # cs)) in
      if take (length username_prefix) (c # cs) = username_prefix \<and> w \<noteq> []
      then Some w
      else search_username cs)"

definition extract_username :: "email_message \<Rightarrow> exn + string option" where
  "extract_username msg =
     (case (if is_multipart (content msg) then walk_loop [] (walk (content msg))
            else decoded_payload (content msg)) of
        Inl e \<Rightarrow> Inl e
      | Inr body \<Rightarrow> Inr (search_username body))"

section \<open>The mail session and the clock\<close>

text \<open>
  The \<open>imaplib\<close> connection is an external collaborator. A command is one call on it;
  its reply is an exception or the data list of the returned pair. An element of a data
  list is a bytes object, \<open>None\<close>, or a pair whose second component is the raw message,
  here already parsed.
\<close>

datatype cmd =
    Connect_IMAP4 string string
  | Connect_IMAP4_SSL string
  | Login string string
  | Select string bool
  | Fetch string string
  | Close

datatype item = Bytes string | NoneItem | Tuple string email_message

datatype reply = Raises exn | Returns "item list"

datatype datetime = Aware int | Naive int

text \<open>
  What the module reads from outside: the server's reply to a command, which may depend
  on all the commands sent before it; \<open>datetime.strptime\<close> with the module's format
  \<open>%a, %d %b %Y %H:%M:%S %z\<close>, giving the instant of an aware datetime or \<open>None\<close> for
  its ValueError; the successive readings of \<open>time.time()\<close>; and the value of
  \<open>TWS_WAIT_EMAIL_CODE\<close>.
\<close>

record env =
  server :: "cmd list \<Rightarrow> cmd \<Rightarrow> reply"
  strptime :: "string \<Rightarrow> int option"
  clock :: "nat \<Rightarrow> real"
  tws_wait_email_code :: int

text \<open>
  The state a run threads through: the commands sent so far, the number of clock
  readings taken, and the number of \<open>asyncio.sleep(5)\<close> calls awaited.
\<close>

record world =
  hist :: "cmd list"
  reads :: nat
  sleeps :: nat

definition imap_call :: "env \<Rightarrow> cmd \<Rightarrow> world \<Rightarrow> reply \<times> world" where
  "imap_call ev c w = (server ev (hist w) c, w\<lparr>hist := hist w @ [c]\<rparr>)"

definition time_time :: "env \<Rightarrow> world \<Rightarrow> real \<times> world" where
  "time_time ev w = (clock ev (reads w), w\<lparr>reads := Suc (reads w)\<rparr>)"

definition sleep5 :: "world \<Rightarrow> world" where
  "sleep5 w = w\<lparr>sleeps := Suc (sleeps w)\<rparr>"

section \<open>Message scanner\<close>

text \<open>\<open>min_t is not None and msg_time < min_t\<close>, where \<open>msg_time\<close> is aware.\<close>

definition before_cutoff :: "int \<Rightarrow> datetime option \<Rightarrow> exn + bool" where
  "before_cutoff msg_time min_t =
     (case min_t of
        None \<Rightarrow> Inr False
      | Some (Aware t) \<Rightarrow> Inr (msg_time < t)
      | Some (Naive t) \<Rightarrow> Inl TypeError)"

text \<open>
  What the body of the inner loop does with one pair of a fetch reply: raise, go on to
  the next element, or return from \<open>_wait_email_code\<close> with a result or \<open>None\<close>.
\<close>

datatype outcome = Next | Return "EmailCodeResult option"

text \<open>
  \<open>msg.get("Date", "").split("(")[0].strip()\<close>, then \<open>strptime\<close>: the time of the
  message, or the exception raised on the way.
\<close>

definition message_time :: "env \<Rightarrow> email_message \<Rightarrow> exn + int" where
  "message_time ev msg =
     (case py_index (split_chr CHR ''('' (get_or_empty (hdr_date msg))) 0 of
        Inl e \<Rightarrow> Inl e
      | Inr d \<Rightarrow>
          (case strptime ev (strip d) of
             None \<Rightarrow> Inl ValueError
           | Some t \<Rightarrow> Inr t))"

definition scan_message :: "env \<Rightarrow> datetime option \<Rightarrow> email_message \<Rightarrow> exn + outcome" where
  "scan_message ev min_t msg =
     (case message_time ev msg of
        Inl e \<Rightarrow> Inl e
      | Inr msg_time \<Rightarrow>
          (let msg_from = lower (get_or_empty (hdr_from msg));
               msg_subj = lower (get_or_empty (hdr_subject msg))
           in case before_cutoff msg_time min_t of
                Inl e \<Rightarrow> Inl e
              | Inr True \<Rightarrow> Inr (Return None)
              | Inr False \<Rightarrow>
                  if contains ''info@x.com'' msg_from
                     \<and> contains ''confirmation code is'' msg_subj
                  then (case extract_username msg of
                          Inl e \<Rightarrow> Inl e
                        | Inr u \<Rightarrow>
                            (case py_last (split_chr CHR '' '' msg_subj) of
                               Inl e \<Rightarrow> Inl e
                             | Inr tok \<Rightarrow>
                                 Inr (Return (Some \<lparr>code = strip tok, username = u\<rparr>))))
                  else Inr Next))"

fun scan_rep :: "env \<Rightarrow> datetime option \<Rightarrow> item list \<Rightarrow> exn + outcome" where
  "scan_rep ev min_t [] = Inr Next"
| "scan_rep ev min_t (Tuple b msg # xs) =
     (case scan_message ev min_t msg of
        Inl e \<Rightarrow> Inl e
      | Inr Next \<Rightarrow> scan_rep ev min_t xs
      | Inr (Return r) \<Rightarrow> Inr (Return r))"
| "scan_rep ev min_t (x # xs) = scan_rep ev min_t xs"

text \<open>The outer loop, \<open>for i in range(count, 0, -1)\<close>, from \<open>i\<close> downwards.\<close>

fun wait_loop ::
  "env \<Rightarrow> datetime option \<Rightarrow> nat \<Rightarrow> world \<Rightarrow> (exn + EmailCodeResult option) \<times> world" where
  "wait_loop ev min_t 0 w = (Inr None, w)"
| "wait_loop ev min_t (Suc i) w =
     (case imap_call ev (Fetch (str_int (int (Suc i))) ''(RFC822)'') w of
        (Raises e, w') \<Rightarrow> (Inl e, w')
      | (Returns rep, w') \<Rightarrow>
          (case scan_rep ev min_t rep of
             Inl e \<Rightarrow> (Inl e, w')
           | Inr (Return r) \<Rightarrow> (Inr r, w')
           | Inr Next \<Rightarrow> wait_loop ev min_t i w'))"

definition wait_email_code ::
  "env \<Rightarrow> int \<Rightarrow> datetime option \<Rightarrow> world \<Rightarrow> (exn + EmailCodeResult option) \<times> world" where
  "wait_email_code ev count min_t w = wait_loop ev min_t (nat count) w"

section \<open>Poll loop\<close>

text \<open>
  \<open>int(rep[0].decode("utf-8")) if len(rep) > 0 and rep[0] is not None else 0\<close>. A
  pair has no \<open>decode\<close>: AttributeError.
\<close>

definition msg_count :: "item list \<Rightarrow> exn + int" where
  "msg_count rep =
     (case rep of
        [] \<Rightarrow> Inr 0
      | NoneItem # xs \<Rightarrow> Inr 0
      | Tuple b m # xs \<Rightarrow> Inl AttributeError
      | Bytes b # xs \<Rightarrow>
          (case utf8_decode b of
             None \<Rightarrow> Inl UnicodeDecodeError
           | Some s \<Rightarrow> (case py_int s of None \<Rightarrow> Inl ValueError | Some n \<Rightarrow> Inr n)))"

text \<open>
  The first three statements of the loop body: select the inbox, read the message
  count, scan.
\<close>

definition scan_once ::
  "env \<Rightarrow> datetime option \<Rightarrow> world \<Rightarrow> (exn + EmailCodeResult option) \<times> world" where
  "scan_once ev min_t w =
     (case imap_call ev (Select ''INBOX'' False) w of
        (Raises e, w1) \<Rightarrow> (Inl e, w1)
      | (Returns rep, w1) \<Rightarrow>
          (case msg_count rep of
             Inl e \<Rightarrow> (Inl e, w1)
           | Inr n \<Rightarrow> wait_email_code ev n min_t w1))"

definition timeout_message :: "int \<Rightarrow> string" where
  "timeout_message t = ''Email code timeout ('' @ str_int t @ '' sec)''"

text \<open>
  \<open>while True\<close>: the loop need not end, so it is a partial function; \<open>None\<close> is the run
  that never leaves the loop. An exception raised in the loop is returned as \<open>Inl\<close>, for
  the handler around the loop to deal with.
\<close>

partial_function (option) poll_loop ::
  "env \<Rightarrow> datetime option \<Rightarrow> real \<Rightarrow> world \<Rightarrow> ((exn + EmailCodeResult) \<times> world) option" where
  "poll_loop ev min_t start_time w =
     (case scan_once ev min_t w of
        (Inl e, w2) \<Rightarrow> Some (Inl e, w2)
      | (Inr (Some code_result), w2) \<Rightarrow> Some (Inr code_result, w2)
      | (Inr None, w2) \<Rightarrow>
          (case time_time ev w2 of
             (now, w3) \<Rightarrow>
               if real_of_int (tws_wait_email_code ev) < now - start_time
               then Some (Inl (EmailCodeTimeoutError (timeout_message (tws_wait_email_code ev))), w3)
               else poll_loop ev min_t start_time (sleep5 w3)))"

text \<open>The body of the \<open>try\<close>: read the start time, then loop.\<close>

definition poll_body ::
  "env \<Rightarrow> datetime option \<Rightarrow> world \<Rightarrow> ((exn + EmailCodeResult) \<times> world) option" where
  "poll_body ev min_t w =
     (case time_time ev w of (start_time, w0) \<Rightarrow> poll_loop ev min_t start_time w0)"

text \<open>
  The handler \<open>except Exception as e\<close>: select the inbox, close, raise \<open>e\<close>. An
  exception raised by one of the two calls takes the place of \<open>e\<close>.
\<close>

definition cleanup_and_raise :: "env \<Rightarrow> exn \<Rightarrow> world \<Rightarrow> (exn + EmailCodeResult) \<times> world" where
  "cleanup_and_raise ev e w =
     (case imap_call ev (Select ''INBOX'' False) w of
        (Raises e1, w1) \<Rightarrow> (Inl e1, w1)
      | (Returns rep, w1) \<Rightarrow>
          (case imap_call ev Close w1 of
             (Raises e2, w2) \<Rightarrow> (Inl e2, w2)
           | (Returns rep', w2) \<Rightarrow> (Inl e, w2)))"

definition imap_get_email_code ::
  "env \<Rightarrow> string \<Rightarrow> datetime option \<Rightarrow> world \<Rightarrow> ((exn + EmailCodeResult) \<times> world) option" where
  "imap_get_email_code ev email min_t w =
     (case poll_body ev min_t w of
        None \<Rightarrow> None
      | Some (Inr code_result, w') \<Rightarrow> Some (Inr code_result, w')
      | Some (Inl e, w') \<Rightarrow> Some (cleanup_and_raise ev e w'))"

text \<open>
  The world in which the next iteration starts, when the scan of this one found nothing
  and the deadline has not passed: after the scan, the clock reading and the sleep. And
  the world in which iteration \<open>j\<close> starts when all the iterations before it went so.
\<close>

definition after_round :: "env \<Rightarrow> datetime option \<Rightarrow> world \<Rightarrow> world" where
  "after_round ev min_t w = sleep5 (snd (time_time ev (snd (scan_once ev min_t w))))"

definition round_start :: "env \<Rightarrow> datetime option \<Rightarrow> world \<Rightarrow> nat \<Rightarrow> world" where
  "round_start ev min_t w j = (after_round ev min_t ^^ j) w"

section \<open>Opening a session\<close>

text \<open>
  \<open>host, port = domain.split(":")\<close> needs exactly two parts (ValueError otherwise).
  The constructors connect; what they raise is not caught.
\<close>

definition connect_cmd :: "string \<Rightarrow> exn + cmd" where
  "connect_cmd domain =
     (if CHR '':'' \<in> set domain
      then (case split_chr CHR '':'' domain of
              [host, port] \<Rightarrow> Inr (Connect_IMAP4 host port)
            | _ \<Rightarrow> Inl ValueError)
      else Inr (Connect_IMAP4_SSL domain))"

text \<open>
  \<open>except imaplib.IMAP4.error as e: raise EmailLoginError() from e\<close>; any other
  exception passes through.
\<close>

definition login_error :: "exn \<Rightarrow> exn" where
  "login_error e =
     (case e of
        IMAP4_error m \<Rightarrow> EmailLoginError ''Email login error'' (IMAP4_error m)
      | _ \<Rightarrow> e)"

text \<open>The result is the connection, named by the call that opened it.\<close>

definition imap_login ::
  "env \<Rightarrow> mapping \<Rightarrow> string \<Rightarrow> string \<Rightarrow> world \<Rightarrow> (exn + cmd) \<times> world" where
  "imap_login ev m email password w =
     (case get_imap_domain m email of
        Inl e \<Rightarrow> (Inl e, w)
      | Inr domain \<Rightarrow>
          (case connect_cmd domain of
             Inl e \<Rightarrow> (Inl e, w)
           | Inr c \<Rightarrow>
               (case imap_call ev c w of
                  (Raises e, w1) \<Rightarrow> (Inl e, w1)
                | (Returns greeting, w1) \<Rightarrow>
                    (case imap_call ev (Login email password) w1 of
                       (Raises e, w2) \<Rightarrow> (Inl (login_error e), w2)
                     | (Returns rep, w2) \<Rightarrow>
                         (case imap_call ev (Select ''INBOX'' True) w2 of
                            (Raises e, w3) \<Rightarrow> (Inl (login_error e), w3)
                          | (Returns rep', w3) \<Rightarrow> (Inr c, w3))))))"

section \<open>Notions used to state the properties\<close>

text \<open>
  The fetch commands for the sequence numbers \<open>n\<close>, \<open>n - 1\<close>, ..., \<open>i + 1\<close>, in this
  order: what the scanner has sent when it has gone from message \<open>n\<close> down to message
  \<open>i + 1\<close>.
\<close>

definition fetch_cmds :: "nat \<Rightarrow> nat \<Rightarrow> cmd list" where
  "fetch_cmds n i = map (\<lambda>j. Fetch (str_int (int j)) ''(RFC822)'') (rev [Suc i ..< Suc n])"

text \<open>
  The last whitespace-delimited token of a line in the words of the specification: the
  last maximal run of characters that are not whitespace.
\<close>

definition spec_last_token :: "string \<Rightarrow> string" where
  "spec_last_token s =
     rev (takeWhile (\<lambda>c. \<not> is_space c) (dropWhile is_space (rev s)))"

text \<open>
  The first \<open>text/plain\<close> part not marked as an attachment, in the words of the
  specification.
\<close>

definition spec_first_plain_part :: "mime_part \<Rightarrow> mime_part option" where
  "spec_first_plain_part whole = List.find plain_not_attachment (walk whole)"

section \<open>Example collaborators\<close>

text \<open>
  A server holding a fixed mailbox, for concrete runs: \<open>select\<close> answers with the number
  of messages, \<open>fetch\<close> with the message of that sequence number followed by the closing
  parenthesis, as \<open>imaplib\<close> returns it, or with \<open>None\<close> for a number out of range.
\<close>

definition mailbox_server :: "email_message list \<Rightarrow> cmd list \<Rightarrow> cmd \<Rightarrow> reply" where
  "mailbox_server box h c =
     (case c of
        Select mailbox ro \<Rightarrow> Returns [Bytes (str_int (int (length box)))]
      | Fetch i parts \<Rightarrow>
          (case py_int i of
             None \<Rightarrow> Raises (IMAP4_error ''FETCH command error: BAD'')
           | Some n \<Rightarrow>
               if 1 \<le> n \<and> n \<le> int (length box)
               then Returns [Tuple (i @ '' (RFC822 {1024}'') (box ! nat (n - 1)), Bytes '')'']
               else Returns [NoneItem])
      | _ \<Rightarrow> Returns [Bytes ''OK''])"

text \<open>The dates of the example messages, as \<open>strptime\<close> reads them (seconds since 1970).\<close>

definition example_strptime :: "string \<Rightarrow> int option" where
  "example_strptime =
     map_of [(''Mon, 02 Nov 2026 10:00:00 +0000'', 1793613600),
             (''Mon, 02 Nov 2026 09:00:00 +0000'', 1793610000),
             (''Sun, 01 Nov 2026 08:30:00 +0000'', 1793521800)]"

text \<open>A clock whose successive readings are five seconds apart.\<close>

definition example_env :: "email_message list \<Rightarrow> int \<Rightarrow> env" where
  "example_env box t =
     \<lparr>server = mailbox_server box, strptime = example_strptime,
      clock = (\<lambda>n. 5 * real n), tws_wait_email_code = t\<rparr>"

definition world0 :: world where
  "world0 = \<lparr>hist = [], reads = 0, sleeps = 0\<rparr>"

definition plain_message :: "string \<Rightarrow> string \<Rightarrow> string \<Rightarrow> string \<Rightarrow> email_message" where
  "plain_message date sender subject body =
     \<lparr>hdr_date = Some date, hdr_from = Some sender, hdr_subject = Some subject,
      content = Single ''text/plain'' None (Text body)\<rparr>"

text \<open>
  A mailbox of four messages, oldest first: message 2 is a confirmation mail from the
  day before, messages 3 and 4 are other mail, and only message 4 is later than 09:30.
\<close>

definition example_box :: "email_message list" where
  "example_box =
     [plain_message ''Sun, 01 Nov 2026 08:30:00 +0000'' ''news@example.org'' ''Weekly news''
        ''hello'',
      plain_message ''Sun, 01 Nov 2026 08:30:00 +0000'' ''X <info@x.com>''
        ''Your X confirmation code is 111111'' ''hello'',
      plain_message ''Mon, 02 Nov 2026 09:00:00 +0000'' ''news@example.org'' ''Daily news''
        ''hello'',
      plain_message ''Mon, 02 Nov 2026 10:00:00 +0000 (UTC)'' ''friend@example.org'' ''Lunch?''
        ''hello'']"

text \<open>A multipart message with two plain-text parts, each naming an account.\<close>

definition two_part_message :: email_message where
  "two_part_message =
     \<lparr>hdr_date = Some ''Mon, 02 Nov 2026 10:00:00 +0000'',
      hdr_from = Some ''X <info@x.com>'',
      hdr_subject = Some ''Your X confirmation code is 482917'',
      content =
        Multi ''multipart/mixed'' None
          [Single ''text/plain'' None
             (Text ''We noticed an attempt to log in to your account @firstUser today.''),
           Single ''text/html'' None (Text ''<p>hello</p>''),
           Single ''text/plain'' (Some ''inline'')
             (Text ''An attempt to log in to your account @secondUser was seen.''),
           Single ''text/plain'' (Some ''attachment; filename=note.txt'')
             (Text ''to log in to your account @attachedUser'')]\<rparr>"

section \<open>Properties of the domain resolver\<close>

lemma split_chr_not_Nil: "split_chr sep s \<noteq> []"
  by (induction s) (auto split: list.splits)

lemma split_chr_no_sep: "sep \<notin> set s \<Longrightarrow> split_chr sep s = [s]"
  by (induction s) auto

lemma split_chr_at_sep:
  "sep \<in> set s \<Longrightarrow>
   split_chr sep s =
     takeWhile (\<lambda>c. c \<noteq> sep) s # split_chr sep (tl (dropWhile (\<lambda>c. c \<noteq> sep) s))"
proof (induction s)
  case Nil
  then show ?case by simp
next
  case (Cons c cs)
  show ?case
  proof (cases "c = sep")
    case True
    then show ?thesis by simp
  next
    case False
    with Cons.prems have "sep \<in> set cs" by simp
    with Cons.IH False show ?thesis by simp
  qed
qed

lemma hd_split_chr: "hd (split_chr sep s) = takeWhile (\<lambda>c. c \<noteq> sep) s"
proof (cases "sep \<in> set s")
  case True
  then show ?thesis by (simp add: split_chr_at_sep)
next
  case False
  then have "split_chr sep s = [s]" by (rule split_chr_no_sep)
  moreover from False have "takeWhile (\<lambda>c. c \<noteq> sep) s = s" by auto
  ultimately show ?thesis by (simp only: list.sel)
qed

lemma split_chr_second:
  assumes "sep \<in> set s"
  shows "py_index (split_chr sep s) 1 =
           Inr (takeWhile (\<lambda>c. c \<noteq> sep) (tl (dropWhile (\<lambda>c. c \<noteq> sep) s)))"
proof -
  let ?rest = "tl (dropWhile (\<lambda>c. c \<noteq> sep) s)"
  have ne: "split_chr sep ?rest \<noteq> []" by (rule split_chr_not_Nil)
  then have "split_chr sep ?rest ! 0 = hd (split_chr sep ?rest)"
    by (simp add: hd_conv_nth)
  with ne assms show ?thesis
    by (simp add: py_index_def split_chr_at_sep hd_split_chr)
qed

lemma split_chr_length_gt1: "sep \<in> set s \<Longrightarrow> 1 < length (split_chr sep s)"
  using split_chr_not_Nil[of sep "tl (dropWhile (\<lambda>c. c \<noteq> sep) s)"]
  by (simp add: split_chr_at_sep)

lemma run_calls_append: "run_calls m (xs @ ys) = run_calls (run_calls m xs) ys"
  by (simp add: run_calls_def)

lemma run_calls_keeps:
  "m d = Some e \<Longrightarrow> \<forall>e'. Register d e' \<notin> set cs \<Longrightarrow> run_calls m cs d = Some e"
proof (induction cs arbitrary: m)
  case Nil
  then show ?case by (simp add: run_calls_def)
next
  case (Cons c cs)
  have step: "run_call m c d = Some e"
  proof (cases c)
    case (Register d' e')
    with Cons.prems have "d' \<noteq> d" by auto
    with Register Cons.prems(1) show ?thesis by (simp add: add_imap_mapping_def)
  next
    case (Resolve a)
    with Cons.prems(1) show ?thesis by simp
  qed
  from Cons.prems(2) have "\<forall>e'. Register d e' \<notin> set cs" by auto
  from Cons.IH[of "run_call m c", OF step this] show ?case by (simp add: run_calls_def)
qed

lemma count_one_segment:
  "count_list s c = 1 \<Longrightarrow>
   takeWhile (\<lambda>x. x \<noteq> c) (tl (dropWhile (\<lambda>x. x \<noteq> c) s)) = tl (dropWhile (\<lambda>x. x \<noteq> c) s)"
proof (induction s)
  case Nil
  then show ?case by simp
next
  case (Cons a s)
  show ?case
  proof (cases "a = c")
    case True
    with Cons.prems have "count_list s c = 0" by simp
    then have "c \<notin> set s" by (simp add: count_list_0_iff)
    then have tw: "takeWhile (\<lambda>x. x \<noteq> c) s = s" by auto
    from True have dw: "tl (dropWhile (\<lambda>x. x \<noteq> c) (a # s)) = s" by simp
    show ?thesis unfolding dw by (rule tw)
  next
    case False
    with Cons.prems have one: "count_list s c = 1" by simp
    from False have dw: "dropWhile (\<lambda>x. x \<noteq> c) (a # s) = dropWhile (\<lambda>x. x \<noteq> c) s"
      by simp
    show ?thesis unfolding dw by (rule Cons.IH[OF one])
  qed
qed

text \<open>
  C8. For an address that contains \<open>@\<close>, \<open>get_imap_domain\<close> splits it at \<open>@\<close>, takes the
  element of index 1 as the domain and returns the dictionary's entry for that domain
  when there is one, and \<open>imap.\<close> followed by the domain otherwise. With the dictionary
  of the module, \<open>user@yahoo.com\<close> resolves to the yahoo entry and
  \<open>user@unknown-domain.test\<close> to \<open>imap.unknown-domain.test\<close>.
\<close>

theorem get_imap_domain_resolves:
  assumes "CHR ''@'' \<in> set email"
  shows "get_imap_domain m email =
           Inr (case m (split_chr CHR ''@'' email ! 1) of
                  Some imap_domain \<Rightarrow> imap_domain
                | None \<Rightarrow> ''imap.'' @ split_chr CHR ''@'' email ! 1) \<and>
         get_imap_domain IMAP_MAPPING ''user@yahoo.com'' = Inr ''imap.mail.yahoo.com'' \<and>
         get_imap_domain IMAP_MAPPING ''user@unknown-domain.test'' =
           Inr ''imap.unknown-domain.test''"
proof (intro conjI)
  from assms have "1 < length (split_chr CHR ''@'' email)"
    by (rule split_chr_length_gt1)
  then show "get_imap_domain m email =
           Inr (case m (split_chr CHR ''@'' email ! 1) of
                  Some imap_domain \<Rightarrow> imap_domain
                | None \<Rightarrow> ''imap.'' @ split_chr CHR ''@'' email ! 1)"
    by (simp add: get_imap_domain_def py_index_def split: option.splits)
  show "get_imap_domain IMAP_MAPPING ''user@yahoo.com'' = Inr ''imap.mail.yahoo.com''"
    by (simp add: get_imap_domain_def py_index_def IMAP_MAPPING_def)
  show "get_imap_domain IMAP_MAPPING ''user@unknown-domain.test'' =
           Inr ''imap.unknown-domain.test''"
    by (simp add: get_imap_domain_def py_index_def IMAP_MAPPING_def)
qed

theorem get_imap_domain_resolves_witness:
  "CHR ''@'' \<in> set ''bob@proton.me'' \<and>
   get_imap_domain IMAP_MAPPING ''bob@proton.me'' = Inr ''127.0.0.1:1143''"
proof -
  have h: "CHR ''@'' \<in> set ''bob@proton.me''" by simp
  show ?thesis
    using h get_imap_domain_resolves[OF h, of IMAP_MAPPING]
    by (simp add: IMAP_MAPPING_def)
qed

text \<open>
  C9. After \<open>add_imap_mapping d e\<close>, whatever was registered before (for \<open>d\<close> or any
  other domain), and whatever calls follow that do not register \<open>d\<close> again (resolutions,
  registrations of other domains), resolving an address whose domain is \<open>d\<close> returns
  \<open>e\<close>: the last registration for a domain wins and stays in force for all later calls
  on the same dictionary.
\<close>

theorem add_imap_mapping_last_write_wins:
  assumes "py_index (split_chr CHR ''@'' email) 1 = Inr d"
    and "\<forall>e'. Register d e' \<notin> set later"
  shows "get_imap_domain (run_calls m (earlier @ Register d e # later)) email = Inr e"
proof -
  have "run_calls m (earlier @ [Register d e]) d = Some e"
    by (simp add: run_calls_append) (simp add: run_calls_def add_imap_mapping_def)
  from run_calls_keeps[of "run_calls m (earlier @ [Register d e])" d e later, OF this assms(2)]
  have "run_calls m (earlier @ Register d e # later) d = Some e"
    by (simp add: run_calls_append[symmetric])
  with assms(1) show ?thesis by (simp add: get_imap_domain_def)
qed

theorem add_imap_mapping_last_write_wins_witness:
  "get_imap_domain
     (run_calls IMAP_MAPPING
        ([Register ''example.com'' ''old.example.com:143'']
         @ Register ''example.com'' ''imap.example.com:993''
         # [Resolve ''a@example.com'', Register ''yahoo.com'' ''y.test'',
            Resolve ''b@yahoo.com'']))
     ''a@example.com'' = Inr ''imap.example.com:993''"
proof -
  have h1: "py_index (split_chr CHR ''@'' ''a@example.com'') 1 = Inr ''example.com''"
    by (simp add: py_index_def)
  have h2: "\<forall>e'. Register ''example.com'' e'
              \<notin> set [Resolve ''a@example.com'', Register ''yahoo.com'' ''y.test'',
                      Resolve ''b@yahoo.com'']"
    by simp
  show ?thesis by (rule add_imap_mapping_last_write_wins[OF h1 h2])
qed

text \<open>
  C10. \<open>get_imap_domain\<close> returns an endpoint exactly for the addresses that contain
  \<open>@\<close>. For those, the domain it looks up is the text between the first and the second
  \<open>@\<close> (all the text after the first \<open>@\<close> when the address has only one); for an
  address without \<open>@\<close> it raises IndexError.
\<close>

theorem get_imap_domain_at_sign:
  "(CHR ''@'' \<notin> set email \<longrightarrow> get_imap_domain m email = Inl IndexError) \<and>
   (CHR ''@'' \<in> set email \<longrightarrow>
      py_index (split_chr CHR ''@'' email) 1 = Inr (spec_domain_segment email) \<and>
      get_imap_domain m email =
        Inr (case m (spec_domain_segment email) of
               Some imap_domain \<Rightarrow> imap_domain
             | None \<Rightarrow> ''imap.'' @ spec_domain_segment email)) \<and>
   (count_list email CHR ''@'' = 1 \<longrightarrow>
      spec_domain_segment email = tl (dropWhile (\<lambda>c. c \<noteq> CHR ''@'') email))"
proof (intro conjI impI)
  assume "CHR ''@'' \<notin> set email"
  then show "get_imap_domain m email = Inl IndexError"
    by (simp add: get_imap_domain_def py_index_def split_chr_no_sep)
next
  assume at: "CHR ''@'' \<in> set email"
  then show seg: "py_index (split_chr CHR ''@'' email) 1 = Inr (spec_domain_segment email)"
    unfolding spec_domain_segment_def by (rule split_chr_second)
  then show "get_imap_domain m email =
        Inr (case m (spec_domain_segment email) of
               Some imap_domain \<Rightarrow> imap_domain
             | None \<Rightarrow> ''imap.'' @ spec_domain_segment email)"
    by (simp add: get_imap_domain_def split: option.splits)
next
  assume one: "count_list email CHR ''@'' = 1"
  show "spec_domain_segment email = tl (dropWhile (\<lambda>c. c \<noteq> CHR ''@'') email)"
    unfolding spec_domain_segment_def by (rule count_one_segment[OF one])
qed

theorem get_imap_domain_at_sign_witness:
  "get_imap_domain IMAP_MAPPING ''no-at-sign'' = Inl IndexError \<and>
   get_imap_domain IMAP_MAPPING ''a@b.org@yahoo.com'' = Inr ''imap.b.org'' \<and>
   spec_domain_segment ''user@icloud.com'' = ''icloud.com''"
  using get_imap_domain_at_sign[of "''no-at-sign''" IMAP_MAPPING]
    get_imap_domain_at_sign[of "''a@b.org@yahoo.com''" IMAP_MAPPING]
    get_imap_domain_at_sign[of "''user@icloud.com''" IMAP_MAPPING]
  by (simp add: spec_domain_segment_def IMAP_MAPPING_def)

section \<open>Properties of the timeout setting\<close>

lemmas py_int_eval =
  py_int_def int_strip_def is_int_space_def max_str_digits_def strip_def is_space_def
  digits_val_def is_digit_def digit_val_def

lemmas tws_eval =
  TWS_WAIT_EMAIL_CODE_def int_of_pyval_def py_index_def List.map_filter_simps

text \<open>
  C7, as the specification states it, fails: the first non-empty source does not always
  win. With \<open>TWS_WAIT_EMAIL_CODE\<close> set to the empty string and \<open>LOGIN_CODE_TIMEOUT\<close> set
  to \<open>60\<close> the computation raises ValueError instead of taking 60, and with
  \<open>TWS_WAIT_EMAIL_CODE=45\<close> and \<open>LOGIN_CODE_TIMEOUT=abc\<close> it raises ValueError instead
  of taking 45, because every set source is converted before the first is selected.
\<close>

theorem tws_first_source_counterexample:
  "TWS_WAIT_EMAIL_CODE (Some '''') (Some ''60'') = Inl ValueError \<and>
   TWS_WAIT_EMAIL_CODE (Some '''') (Some ''60'') \<noteq> Inr 60 \<and>
   TWS_WAIT_EMAIL_CODE (Some ''45'') (Some ''abc'') = Inl ValueError \<and>
   TWS_WAIT_EMAIL_CODE (Some ''45'') (Some ''abc'') \<noteq> Inr 45"
  by (simp add: tws_eval py_int_eval)

text \<open>
  C7, amended. The setting is computed from \<open>TWS_WAIT_EMAIL_CODE\<close>, then
  \<open>LOGIN_CODE_TIMEOUT\<close>, then 30. When a source that is set is not an integer literal
  as \<open>int\<close> reads it (the empty string is not one, nor is a number preceded by the
  separator \<open>0x1c\<close>), whatever its priority, the computation raises ValueError;
  otherwise the first source that is set wins, converted with \<open>int\<close>, and 30 is taken
  when neither variable is set.
\<close>

theorem tws_wait_email_code_priority:
  "TWS_WAIT_EMAIL_CODE a b =
     (if (\<exists>s. a = Some s \<and> py_int s = None) \<or> (\<exists>s. b = Some s \<and> py_int s = None)
      then Inl ValueError
      else Inr (case a of
                  Some s \<Rightarrow> the (py_int s)
                | None \<Rightarrow> (case b of Some s \<Rightarrow> the (py_int s) | None \<Rightarrow> 30)))"
  by (cases a; cases b) (auto simp: tws_eval split: option.splits)

theorem tws_wait_email_code_priority_witness:
  "TWS_WAIT_EMAIL_CODE (Some ''45'') (Some ''60'') = Inr 45 \<and>
   TWS_WAIT_EMAIL_CODE None (Some '' 60 '') = Inr 60 \<and>
   TWS_WAIT_EMAIL_CODE None None = Inr 30 \<and>
   TWS_WAIT_EMAIL_CODE (Some [CHR 0x1C, CHR ''6'', CHR ''0'']) None = Inl ValueError \<and>
   TWS_WAIT_EMAIL_CODE None (Some (replicate 4301 CHR ''1'')) = Inl ValueError"
proof -
  have long: "py_int (replicate 4301 CHR ''1'') = None"
  proof -
    have "int_strip (replicate 4301 CHR ''1'') = replicate 4301 CHR ''1''"
      by (simp add: int_strip_def is_int_space_def)
    moreover have "replicate 4301 CHR ''1'' = CHR ''1'' # replicate 4300 CHR ''1''"
      by (simp add: replicate_Suc[symmetric] del: replicate_Suc)
    moreover have "split_chr CHR ''_'' (CHR ''1'' # replicate 4300 CHR ''1'')
                     = [CHR ''1'' # replicate 4300 CHR ''1'']"
      by (rule split_chr_no_sep) simp
    ultimately show ?thesis
      by (simp add: py_int_def digits_val_def max_str_digits_def)
  qed
  show ?thesis
    using tws_wait_email_code_priority[of "Some ''45''" "Some ''60''"]
      tws_wait_email_code_priority[of None "Some '' 60 ''"]
      tws_wait_email_code_priority[of None None]
      tws_wait_email_code_priority[of "Some [CHR 0x1C, CHR ''6'', CHR ''0'']" None]
      tws_wait_email_code_priority[of None "Some (replicate 4301 CHR ''1'')"]
      long
    by (simp add: py_int_eval)
qed

section \<open>Properties of the extraction of the account name\<close>

lemma walk_loop_all_decoded:
  "list_all (\<lambda>p. \<not> isl (decoded_payload p)) (filter plain_not_attachment parts) \<Longrightarrow>
   walk_loop body parts =
     Inr (if filter plain_not_attachment parts = [] then body
          else projr (decoded_payload (last (filter plain_not_attachment parts))))"
proof (induction parts arbitrary: body)
  case Nil
  then show ?case by simp
next
  case (Cons p ps)
  show ?case
  proof (cases "plain_not_attachment p")
    case False
    with Cons show ?thesis by simp
  next
    case True
    with Cons.prems obtain b where b: "decoded_payload p = Inr b"
      by (cases "decoded_payload p") auto
    from True Cons.prems
    have "list_all (\<lambda>p. \<not> isl (decoded_payload p)) (filter plain_not_attachment ps)"
      by simp
    from Cons.IH[OF this, of b] True b show ?thesis by simp
  qed
qed

lemma walk_loop_none_selected:
  "filter plain_not_attachment parts = [] \<Longrightarrow> walk_loop body parts = Inr body"
  using walk_loop_all_decoded[of parts body] by simp

lemma walk_loop_last:
  "filter plain_not_attachment parts = earlier @ [final] \<Longrightarrow>
   list_all (\<lambda>p. \<not> isl (decoded_payload p)) earlier \<Longrightarrow>
   walk_loop body parts = decoded_payload final"
proof (induction parts arbitrary: body earlier)
  case Nil
  then show ?case by simp
next
  case (Cons p ps)
  show ?case
  proof (cases "plain_not_attachment p")
    case False
    with Cons.prems(1) have "filter plain_not_attachment ps = earlier @ [final]" by simp
    from Cons.IH[OF this Cons.prems(2)] False show ?thesis by simp
  next
    case True
    with Cons.prems(1) have eq: "p # filter plain_not_attachment ps = earlier @ [final]"
      by simp
    show ?thesis
    proof (cases earlier)
      case Nil
      with eq have p: "p = final" and none: "filter plain_not_attachment ps = []" by simp_all
      show ?thesis
      proof (cases "decoded_payload p")
        case (Inl e)
        with True p show ?thesis by simp
      next
        case (Inr b)
        with True p walk_loop_none_selected[OF none, of b] show ?thesis by simp
      qed
    next
      case (Cons q qs)
      with eq have q: "q = p" and rest: "filter plain_not_attachment ps = qs @ [final]"
        by simp_all
      from Cons.prems(2) \<open>earlier = q # qs\<close> q
      have ok: "\<not> isl (decoded_payload p)"
        and oks: "list_all (\<lambda>p. \<not> isl (decoded_payload p)) qs"
        by simp_all
      from ok obtain b where b: "decoded_payload p = Inr b"
        by (cases "decoded_payload p") auto
      from Cons.IH[OF rest oks, of b] True b show ?thesis by simp
    qed
  qed
qed

text \<open>
  C4, as the specification states it, fails. In this multipart message the first
  \<open>text/plain\<close> part that is not an attachment names \<open>firstUser\<close>, a later one names
  \<open>secondUser\<close>, and \<open>_extract_username\<close> returns \<open>secondUser\<close>.
\<close>

theorem extract_username_first_part_counterexample:
  "is_multipart (content two_part_message) \<and>
   spec_first_plain_part (content two_part_message) =
     Some (Single ''text/plain'' None
             (Text ''We noticed an attempt to log in to your account @firstUser today.'')) \<and>
   search_username ''We noticed an attempt to log in to your account @firstUser today.''
     = Some ''firstUser'' \<and>
   extract_username two_part_message = Inr (Some ''secondUser'')"
  by (simp add: extract_username_def spec_first_plain_part_def two_part_message_def
      plain_not_attachment_def str_opt_def username_prefix_def is_word_def)

text \<open>
  C4, amended. For a multipart message the account name is searched in the payload of
  the last part of the walk that is \<open>text/plain\<close> and not marked as an attachment,
  provided the earlier such parts decode (each of them is decoded on the way); when
  that last part does not decode, its error is raised; when no part qualifies, the
  empty text is searched and no name is found.
\<close>

theorem extract_username_last_part:
  assumes "is_multipart (content msg)"
  shows "(filter plain_not_attachment (walk (content msg)) = earlier @ [final]
          \<and> list_all (\<lambda>p. \<not> isl (decoded_payload p)) earlier
          \<longrightarrow> extract_username msg =
                (case decoded_payload final of
                   Inl e \<Rightarrow> Inl e
                 | Inr body \<Rightarrow> Inr (search_username body)))
       \<and> (filter plain_not_attachment (walk (content msg)) = []
          \<longrightarrow> extract_username msg = Inr None)"
proof (intro conjI impI)
  assume "filter plain_not_attachment (walk (content msg)) = earlier @ [final]
          \<and> list_all (\<lambda>p. \<not> isl (decoded_payload p)) earlier"
  then have "walk_loop [] (walk (content msg)) = decoded_payload final"
    by (simp add: walk_loop_last)
  with assms show "extract_username msg =
                (case decoded_payload final of
                   Inl e \<Rightarrow> Inl e
                 | Inr body \<Rightarrow> Inr (search_username body))"
    by (simp add: extract_username_def)
next
  assume "filter plain_not_attachment (walk (content msg)) = []"
  then have "walk_loop [] (walk (content msg)) = Inr []"
    by (rule walk_loop_none_selected)
  with assms show "extract_username msg = Inr None"
    by (simp add: extract_username_def)
qed

theorem extract_username_last_part_witness:
  "extract_username two_part_message = Inr (Some ''secondUser'') \<and>
   extract_username
     \<lparr>hdr_date = None, hdr_from = None, hdr_subject = None,
      content = Multi ''multipart/alternative'' None
                  [Single ''text/html'' None (Text ''to log in to your account @htmlUser'')]\<rparr>
     = Inr None"
proof -
  have m1: "is_multipart (content two_part_message)"
    by (simp add: two_part_message_def)
  let ?m2 = "\<lparr>hdr_date = None, hdr_from = None, hdr_subject = None,
      content = Multi ''multipart/alternative'' None
                  [Single ''text/html'' None (Text ''to log in to your account @htmlUser'')]\<rparr>"
  have m2: "is_multipart (content ?m2)" by simp
  show ?thesis
    using extract_username_last_part[OF m1,
          of "[Single ''text/plain'' None
                (Text ''We noticed an attempt to log in to your account @firstUser today.'')]"
             "Single ''text/plain'' (Some ''inline'')
                (Text ''An attempt to log in to your account @secondUser was seen.'')"]
      extract_username_last_part[OF m2, of "[]" "Single [] None Undecodable"]
    by (simp add: two_part_message_def plain_not_attachment_def str_opt_def
        username_prefix_def is_word_def)
qed

section \<open>Properties of the message scanner\<close>

lemma fetch_cmds_same: "fetch_cmds n n = []"
  by (simp add: fetch_cmds_def)

lemma fetch_cmds_Suc:
  "i \<le> n \<Longrightarrow>
   fetch_cmds (Suc n) i = Fetch (str_int (int (Suc n))) ''(RFC822)'' # fetch_cmds n i"
  by (simp add: fetch_cmds_def)

lemma fetch_cmds_last:
  "k < n \<Longrightarrow>
   fetch_cmds n k = fetch_cmds n (Suc k) @ [Fetch (str_int (int (Suc k))) ''(RFC822)'']"
proof -
  assume "k < n"
  then have "[Suc k ..< Suc n] = Suc k # [Suc (Suc k) ..< Suc n]"
    by (subst upt_rec) simp
  then show ?thesis unfolding fetch_cmds_def by (simp only: rev.simps list.map map_append)
qed

lemma world_hist_same: "w\<lparr>hist := hist w @ []\<rparr> = w"
  by simp

lemma wait_loop_skip:
  assumes "i \<le> n"
    and "\<forall>j. i < j \<and> j \<le> n \<longrightarrow>
           (\<exists>rep. server ev (hist w @ fetch_cmds n j) (Fetch (str_int (int j)) ''(RFC822)'')
                    = Returns rep
                  \<and> scan_rep ev min_t rep = Inr Next)"
  shows "wait_loop ev min_t n w = wait_loop ev min_t i (w\<lparr>hist := hist w @ fetch_cmds n i\<rparr>)"
  using assms
proof (induction n arbitrary: w)
  case 0
  then show ?case by (simp add: fetch_cmds_same)
next
  case (Suc n)
  show ?case
  proof (cases "i = Suc n")
    case True
    then show ?thesis by (simp add: fetch_cmds_same)
  next
    case False
    with Suc.prems(1) have le: "i \<le> n" by simp
    let ?c = "Fetch (str_int (int (Suc n))) ''(RFC822)''"
    let ?w' = "w\<lparr>hist := hist w @ [?c]\<rparr>"
    from Suc.prems(2) le
    obtain rep where rep: "server ev (hist w @ fetch_cmds (Suc n) (Suc n)) ?c = Returns rep"
      and nxt: "scan_rep ev min_t rep = Inr Next"
      by (metis le_imp_less_Suc order_refl)
    from rep have rep': "server ev (hist w) ?c = Returns rep" by (simp add: fetch_cmds_same)
    have step: "wait_loop ev min_t (Suc n) w = wait_loop ev min_t n ?w'"
      using rep' nxt by (simp add: imap_call_def)
    have "\<forall>j. i < j \<and> j \<le> n \<longrightarrow>
           (\<exists>rep. server ev (hist ?w' @ fetch_cmds n j) (Fetch (str_int (int j)) ''(RFC822)'')
                    = Returns rep
                  \<and> scan_rep ev min_t rep = Inr Next)"
    proof (intro allI impI)
      fix j assume j: "i < j \<and> j \<le> n"
      then have "i < j \<and> j \<le> Suc n" by simp
      with Suc.prems(2)
      have "\<exists>rep. server ev (hist w @ fetch_cmds (Suc n) j) (Fetch (str_int (int j)) ''(RFC822)'')
                    = Returns rep
                  \<and> scan_rep ev min_t rep = Inr Next"
        by blast
      moreover from j have "hist w @ fetch_cmds (Suc n) j = hist ?w' @ fetch_cmds n j"
        by (simp add: fetch_cmds_Suc)
      ultimately show "\<exists>rep. server ev (hist ?w' @ fetch_cmds n j)
                          (Fetch (str_int (int j)) ''(RFC822)'') = Returns rep
                  \<and> scan_rep ev min_t rep = Inr Next"
        by simp
    qed
    from Suc.IH[OF le this]
    have "wait_loop ev min_t n ?w' =
            wait_loop ev min_t i (?w'\<lparr>hist := hist ?w' @ fetch_cmds n i\<rparr>)" .
    moreover from le have "?w'\<lparr>hist := hist ?w' @ fetch_cmds n i\<rparr>
            = w\<lparr>hist := hist w @ fetch_cmds (Suc n) i\<rparr>"
      by (simp add: fetch_cmds_Suc)
    ultimately show ?thesis using step by simp
  qed
qed

lemma wait_loop_hist:
  "\<exists>k\<le>n. snd (wait_loop ev min_t n w) = w\<lparr>hist := hist w @ fetch_cmds n k\<rparr>"
proof (induction n arbitrary: w)
  case 0
  show ?case by (simp add: fetch_cmds_same)
next
  case (Suc n)
  let ?c = "Fetch (str_int (int (Suc n))) ''(RFC822)''"
  let ?w' = "w\<lparr>hist := hist w @ [?c]\<rparr>"
  have one: "w\<lparr>hist := hist w @ fetch_cmds (Suc n) n\<rparr> = ?w'"
    by (simp add: fetch_cmds_Suc fetch_cmds_same)
  show ?case
  proof (cases "\<exists>rep. server ev (hist w) ?c = Returns rep \<and> scan_rep ev min_t rep = Inr Next")
    case False
    then have stop: "snd (wait_loop ev min_t (Suc n) w) = ?w'"
      by (auto simp: imap_call_def split: reply.splits sum.splits outcome.splits)
    with one have "snd (wait_loop ev min_t (Suc n) w)
                     = w\<lparr>hist := hist w @ fetch_cmds (Suc n) n\<rparr>" by simp
    then show ?thesis by (intro exI[of _ n]) simp
  next
    case True
    then have go: "snd (wait_loop ev min_t (Suc n) w) = snd (wait_loop ev min_t n ?w')"
      by (auto simp: imap_call_def)
    from Suc.IH[of ?w'] obtain k where k: "k \<le> n"
      and h: "snd (wait_loop ev min_t n ?w') = ?w'\<lparr>hist := hist ?w' @ fetch_cmds n k\<rparr>"
      by blast
    from k have "?w'\<lparr>hist := hist ?w' @ fetch_cmds n k\<rparr>
                   = w\<lparr>hist := hist w @ fetch_cmds (Suc n) k\<rparr>"
      by (simp add: fetch_cmds_Suc)
    with go h k show ?thesis by (intro exI[of _ k]) simp
  qed
qed

lemma scan_rep_append:
  "scan_rep ev min_t pre = Inr Next \<Longrightarrow> scan_rep ev min_t (pre @ xs) = scan_rep ev min_t xs"
  by (induction ev min_t pre rule: scan_rep.induct)
     (auto split: sum.splits outcome.splits)

lemma scan_message_stale:
  "message_time ev msg = Inr t \<Longrightarrow> t < cutoff \<Longrightarrow>
   scan_message ev (Some (Aware cutoff)) msg = Inr (Return None)"
  by (simp add: scan_message_def before_cutoff_def)

lemma wait_loop_decided:
  assumes "server ev (hist w) (Fetch (str_int (int (Suc k))) ''(RFC822)'') = Returns rep"
    and "scan_rep ev min_t rep = Inr (Return r)"
  shows "wait_loop ev min_t (Suc k) w =
           (Inr r, w\<lparr>hist := hist w @ [Fetch (str_int (int (Suc k))) ''(RFC822)'']\<rparr>)"
  using assms by (simp add: imap_call_def)

text \<open>
  C3. The commands the scanner sends are the fetches of the sequence numbers \<open>count\<close>,
  \<open>count - 1\<close>, ... in this order, down to some number, and nothing else. When the
  messages above number \<open>k + 1\<close> decide nothing, and in the reply for number \<open>k + 1\<close>
  the first message reached has a time strictly before the cutoff, the scanner returns
  \<open>None\<close> having fetched the numbers \<open>count\<close> down to \<open>k + 1\<close> and none below, whatever
  the older messages hold. When no message decides anything, every number from \<open>count\<close>
  down to 1 is fetched and the result is \<open>None\<close>.
\<close>

theorem wait_email_code_newest_first:
  "(\<exists>k\<le>nat count.
      snd (wait_email_code ev count min_t w) = w\<lparr>hist := hist w @ fetch_cmds (nat count) k\<rparr>)
   \<and> (Suc k \<le> nat count
      \<and> (\<forall>j. Suc k < j \<and> j \<le> nat count \<longrightarrow>
             (\<exists>rep. server ev (hist w @ fetch_cmds (nat count) j)
                       (Fetch (str_int (int j)) ''(RFC822)'') = Returns rep
                    \<and> scan_rep ev min_t rep = Inr Next))
      \<and> server ev (hist w @ fetch_cmds (nat count) (Suc k))
           (Fetch (str_int (int (Suc k))) ''(RFC822)'') = Returns (pre @ Tuple b msg # post)
      \<and> scan_rep ev min_t pre = Inr Next
      \<and> message_time ev msg = Inr t \<and> min_t = Some (Aware cutoff) \<and> t < cutoff
      \<longrightarrow> wait_email_code ev count min_t w =
            (Inr None, w\<lparr>hist := hist w @ fetch_cmds (nat count) k\<rparr>))
   \<and> ((\<forall>j. 0 < j \<and> j \<le> nat count \<longrightarrow>
             (\<exists>rep. server ev (hist w @ fetch_cmds (nat count) j)
                       (Fetch (str_int (int j)) ''(RFC822)'') = Returns rep
                    \<and> scan_rep ev min_t rep = Inr Next))
      \<longrightarrow> wait_email_code ev count min_t w =
            (Inr None, w\<lparr>hist := hist w @ fetch_cmds (nat count) 0\<rparr>))"
proof (intro conjI impI)
  show "\<exists>k\<le>nat count.
      snd (wait_email_code ev count min_t w) = w\<lparr>hist := hist w @ fetch_cmds (nat count) k\<rparr>"
    unfolding wait_email_code_def by (rule wait_loop_hist)
next
  let ?n = "nat count"
  let ?c = "Fetch (str_int (int (Suc k))) ''(RFC822)''"
  let ?w = "w\<lparr>hist := hist w @ fetch_cmds ?n (Suc k)\<rparr>"
  assume a: "Suc k \<le> nat count
      \<and> (\<forall>j. Suc k < j \<and> j \<le> nat count \<longrightarrow>
             (\<exists>rep. server ev (hist w @ fetch_cmds (nat count) j)
                       (Fetch (str_int (int j)) ''(RFC822)'') = Returns rep
                    \<and> scan_rep ev min_t rep = Inr Next))
      \<and> server ev (hist w @ fetch_cmds (nat count) (Suc k))
           (Fetch (str_int (int (Suc k))) ''(RFC822)'') = Returns (pre @ Tuple b msg # post)
      \<and> scan_rep ev min_t pre = Inr Next
      \<and> message_time ev msg = Inr t \<and> min_t = Some (Aware cutoff) \<and> t < cutoff"
  then have le: "Suc k \<le> ?n"
    and sk: "\<forall>j. Suc k < j \<and> j \<le> nat count \<longrightarrow>
             (\<exists>rep. server ev (hist w @ fetch_cmds (nat count) j)
                       (Fetch (str_int (int j)) ''(RFC822)'') = Returns rep
                    \<and> scan_rep ev min_t rep = Inr Next)"
    and srv: "server ev (hist w @ fetch_cmds ?n (Suc k)) ?c = Returns (pre @ Tuple b msg # post)"
    and pre: "scan_rep ev min_t pre = Inr Next"
    and mt: "message_time ev msg = Inr t"
    and cut: "min_t = Some (Aware cutoff)"
    and lt: "t < cutoff"
    by blast+
  have skip: "wait_loop ev min_t ?n w = wait_loop ev min_t (Suc k) ?w"
    by (rule wait_loop_skip[OF le sk])
  from mt lt cut have "scan_message ev min_t msg = Inr (Return None)"
    by (simp add: scan_message_stale)
  then have "scan_rep ev min_t (Tuple b msg # post) = Inr (Return None)"
    by simp
  with pre have dec: "scan_rep ev min_t (pre @ Tuple b msg # post) = Inr (Return None)"
    by (simp only: scan_rep_append)
  from srv have "server ev (hist ?w) ?c = Returns (pre @ Tuple b msg # post)" by simp
  from wait_loop_decided[OF this dec]
  have "wait_loop ev min_t (Suc k) ?w = (Inr None, ?w\<lparr>hist := hist ?w @ [?c]\<rparr>)" .
  moreover from le have "?w\<lparr>hist := hist ?w @ [?c]\<rparr> = w\<lparr>hist := hist w @ fetch_cmds ?n k\<rparr>"
    by (simp add: fetch_cmds_last)
  ultimately show "wait_email_code ev count min_t w =
            (Inr None, w\<lparr>hist := hist w @ fetch_cmds (nat count) k\<rparr>)"
    using skip by (simp add: wait_email_code_def)
next
  assume "\<forall>j. 0 < j \<and> j \<le> nat count \<longrightarrow>
             (\<exists>rep. server ev (hist w @ fetch_cmds (nat count) j)
                       (Fetch (str_int (int j)) ''(RFC822)'') = Returns rep
                    \<and> scan_rep ev min_t rep = Inr Next)"
  then have "wait_loop ev min_t (nat count) w =
               wait_loop ev min_t 0 (w\<lparr>hist := hist w @ fetch_cmds (nat count) 0\<rparr>)"
    by (rule wait_loop_skip[rotated]) simp
  then show "wait_email_code ev count min_t w =
            (Inr None, w\<lparr>hist := hist w @ fetch_cmds (nat count) 0\<rparr>)"
    by (simp add: wait_email_code_def)
qed

lemmas example_eval =
  example_env_def mailbox_server_def example_strptime_def world0_def plain_message_def
  imap_call_def str_int_def str_nat.simps digit_chr_def py_int_eval py_index_def py_last_def
  scan_message_def message_time_def before_cutoff_def extract_username_def get_or_empty_def
  lower_def lower_chr_def username_prefix_def is_word_def

theorem wait_email_code_newest_first_witness:
  "wait_email_code (example_env example_box 30) 4 (Some (Aware 1793611800)) world0 =
     (Inr None, world0\<lparr>hist := [Fetch ''4'' ''(RFC822)'', Fetch ''3'' ''(RFC822)'']\<rparr>)
   \<and> wait_email_code (example_env (drop 2 example_box) 30) 2 None world0 =
     (Inr None, world0\<lparr>hist := [Fetch ''2'' ''(RFC822)'', Fetch ''1'' ''(RFC822)'']\<rparr>)"
proof
  let ?ev = "example_env example_box 30"
  let ?min = "Some (Aware 1793611800)"
  let ?m3 = "plain_message ''Mon, 02 Nov 2026 09:00:00 +0000'' ''news@example.org''
               ''Daily news'' ''hello''"
  have f42: "fetch_cmds 4 2 = [Fetch ''4'' ''(RFC822)'', Fetch ''3'' ''(RFC822)'']"
    and f43: "fetch_cmds 4 3 = [Fetch ''4'' ''(RFC822)'']"
    by (simp_all add: fetch_cmds_def str_int_def str_nat.simps digit_chr_def)
  have above: "\<forall>j. Suc 2 < j \<and> j \<le> nat 4 \<longrightarrow>
           (\<exists>rep. server ?ev (hist world0 @ fetch_cmds (nat 4) j)
                     (Fetch (str_int (int j)) ''(RFC822)'') = Returns rep
                  \<and> scan_rep ?ev ?min rep = Inr Next)"
  proof (intro allI impI)
    fix j :: nat
    assume "Suc 2 < j \<and> j \<le> nat 4"
    then have j: "j = 4" by simp
    show "\<exists>rep. server ?ev (hist world0 @ fetch_cmds (nat 4) j)
                     (Fetch (str_int (int j)) ''(RFC822)'') = Returns rep
                  \<and> scan_rep ?ev ?min rep = Inr Next"
      unfolding j by (simp add: example_eval example_box_def)
  qed
  have at3: "server ?ev (hist world0 @ fetch_cmds (nat 4) (Suc 2))
               (Fetch (str_int (int (Suc 2))) ''(RFC822)'')
             = Returns ([] @ Tuple ''3 (RFC822 {1024}'' ?m3 # [Bytes '')''])"
    by (simp add: example_eval example_box_def)
  have t3: "message_time ?ev ?m3 = Inr 1793610000"
    by (simp add: example_eval)
  have hyp: "Suc 2 \<le> nat 4
      \<and> (\<forall>j. Suc 2 < j \<and> j \<le> nat 4 \<longrightarrow>
             (\<exists>rep. server ?ev (hist world0 @ fetch_cmds (nat 4) j)
                       (Fetch (str_int (int j)) ''(RFC822)'') = Returns rep
                    \<and> scan_rep ?ev ?min rep = Inr Next))
      \<and> server ?ev (hist world0 @ fetch_cmds (nat 4) (Suc 2))
           (Fetch (str_int (int (Suc 2))) ''(RFC822)'')
           = Returns ([] @ Tuple ''3 (RFC822 {1024}'' ?m3 # [Bytes '')''])
      \<and> scan_rep ?ev ?min [] = Inr Next
      \<and> message_time ?ev ?m3 = Inr 1793610000 \<and> ?min = Some (Aware 1793611800)
      \<and> (1793610000 :: int) < 1793611800"
    using above at3 t3 by simp
  from wait_email_code_newest_first[where count = 4 and ev = ?ev and min_t = ?min
        and w = world0 and k = 2 and pre = "[]" and b = "''3 (RFC822 {1024}''"
        and msg = ?m3 and post = "[Bytes '')'']" and t = 1793610000 and cutoff = 1793611800]
    hyp
  have "wait_email_code ?ev 4 ?min world0 =
          (Inr None, world0\<lparr>hist := hist world0 @ fetch_cmds (nat 4) 2\<rparr>)"
    by blast
  then show "wait_email_code ?ev 4 ?min world0 =
     (Inr None, world0\<lparr>hist := [Fetch ''4'' ''(RFC822)'', Fetch ''3'' ''(RFC822)'']\<rparr>)"
    by (simp add: f42 world0_def)
next
  let ?ev = "example_env (drop 2 example_box) 30"
  have "[Suc 0 ..< Suc 2] = [1, 2]"
    by (simp add: upt_rec)
  then have f20: "fetch_cmds 2 0 = [Fetch ''2'' ''(RFC822)'', Fetch ''1'' ''(RFC822)'']"
    by (simp add: fetch_cmds_def str_int_def str_nat.simps digit_chr_def)
  have all: "\<forall>j. 0 < j \<and> j \<le> nat 2 \<longrightarrow>
           (\<exists>rep. server ?ev (hist world0 @ fetch_cmds (nat 2) j)
                     (Fetch (str_int (int j)) ''(RFC822)'') = Returns rep
                  \<and> scan_rep ?ev None rep = Inr Next)"
  proof (intro allI impI)
    fix j :: nat
    assume "0 < j \<and> j \<le> nat 2"
    then have "j = 1 \<or> j = 2" by auto
    then show "\<exists>rep. server ?ev (hist world0 @ fetch_cmds (nat 2) j)
                     (Fetch (str_int (int j)) ''(RFC822)'') = Returns rep
                  \<and> scan_rep ?ev None rep = Inr Next"
      by (elim disjE) (simp_all add: example_eval example_box_def)
  qed
  from wait_email_code_newest_first[where count = 2 and ev = ?ev and min_t = None
        and w = world0] all
  have "wait_email_code ?ev 2 None world0 =
          (Inr None, world0\<lparr>hist := hist world0 @ fetch_cmds (nat 2) 0\<rparr>)"
    by blast
  then show "wait_email_code ?ev 2 None world0 =
     (Inr None, world0\<lparr>hist := [Fetch ''2'' ''(RFC822)'', Fetch ''1'' ''(RFC822)'']\<rparr>)"
    by (simp add: f20 world0_def)
qed

lemma scan_message_match:
  assumes "message_time ev msg = Inr t"
    and "before_cutoff t min_t = Inr False"
    and "contains ''info@x.com'' (lower (get_or_empty (hdr_from msg)))"
    and "contains ''confirmation code is'' (lower (get_or_empty (hdr_subject msg)))"
    and "extract_username msg = Inr u"
  shows "scan_message ev min_t msg =
           Inr (Return (Some \<lparr>code = strip (last (split_chr CHR '' ''
                                      (lower (get_or_empty (hdr_subject msg))))),
                                username = u\<rparr>))"
  using assms by (simp add: scan_message_def py_last_def split_chr_not_Nil)

text \<open>
  C5, as the specification states it, fails: the code is taken from the lower-cased
  subject, split at single spaces. A confirmation mail with the subject
  \<open>Your X confirmation code is AB12CD\<close> gives the code \<open>ab12cd\<close>, and one whose subject
  ends in a space gives the empty code, while the last whitespace-delimited tokens of
  the two subject lines are \<open>AB12CD\<close> and \<open>482917\<close>.
\<close>

theorem wait_email_code_last_token_counterexample:
  "wait_email_code
     (example_env [plain_message ''Mon, 02 Nov 2026 10:00:00 +0000'' ''X <INFO@X.COM>''
                     ''Your X confirmation code is AB12CD'' ''hello''] 30)
     1 None world0 =
     (Inr (Some \<lparr>code = ''ab12cd'', username = None\<rparr>),
      world0\<lparr>hist := [Fetch ''1'' ''(RFC822)'']\<rparr>)
   \<and> spec_last_token ''Your X confirmation code is AB12CD'' = ''AB12CD''
   \<and> wait_email_code
     (example_env [plain_message ''Mon, 02 Nov 2026 10:00:00 +0000'' ''X <info@x.com>''
                     ''Your X confirmation code is 482917 '' ''hello''] 30)
     1 None world0 =
     (Inr (Some \<lparr>code = [], username = None\<rparr>),
      world0\<lparr>hist := [Fetch ''1'' ''(RFC822)'']\<rparr>)
   \<and> spec_last_token ''Your X confirmation code is 482917 '' = ''482917''"
  by (simp add: wait_email_code_def example_eval spec_last_token_def)

text \<open>
  C5, amended. When the scanner reaches a message whose date parses, that is not
  earlier than the cutoff, that passes the sender and subject test and whose body is
  read without error, it returns a result whose code is the last element of the
  lower-cased subject split at single space characters, with surrounding whitespace
  stripped. A mail from \<open>info@x.com\<close> with the subject
  \<open>Your X confirmation code is 482917\<close> and no account name in its body yields the
  code \<open>482917\<close> and no account name.
\<close>

theorem wait_email_code_returns_code:
  assumes "Suc k \<le> nat count"
    and "\<forall>j. Suc k < j \<and> j \<le> nat count \<longrightarrow>
             (\<exists>rep. server ev (hist w @ fetch_cmds (nat count) j)
                       (Fetch (str_int (int j)) ''(RFC822)'') = Returns rep
                    \<and> scan_rep ev min_t rep = Inr Next)"
    and "server ev (hist w @ fetch_cmds (nat count) (Suc k))
           (Fetch (str_int (int (Suc k))) ''(RFC822)'') = Returns (pre @ Tuple b msg # post)"
    and "scan_rep ev min_t pre = Inr Next"
    and "message_time ev msg = Inr t"
    and "before_cutoff t min_t = Inr False"
    and "contains ''info@x.com'' (lower (get_or_empty (hdr_from msg)))"
    and "contains ''confirmation code is'' (lower (get_or_empty (hdr_subject msg)))"
    and "extract_username msg = Inr u"
  shows "wait_email_code ev count min_t w =
           (Inr (Some \<lparr>code = strip (last (split_chr CHR '' ''
                                   (lower (get_or_empty (hdr_subject msg))))),
                       username = u\<rparr>),
            w\<lparr>hist := hist w @ fetch_cmds (nat count) k\<rparr>)
       \<and> wait_email_code
           (example_env [plain_message ''Mon, 02 Nov 2026 10:00:00 +0000'' ''X <Info@X.com>''
                           ''Your X confirmation code is 482917'' ''hello''] 30)
           1 None world0 =
           (Inr (Some \<lparr>code = ''482917'', username = None\<rparr>),
            world0\<lparr>hist := [Fetch ''1'' ''(RFC822)'']\<rparr>)"
proof
  let ?n = "nat count"
  let ?c = "Fetch (str_int (int (Suc k))) ''(RFC822)''"
  let ?w = "w\<lparr>hist := hist w @ fetch_cmds ?n (Suc k)\<rparr>"
  let ?r = "Some \<lparr>code = strip (last (split_chr CHR '' ''
                                   (lower (get_or_empty (hdr_subject msg))))),
                   username = u\<rparr>"
  have skip: "wait_loop ev min_t ?n w = wait_loop ev min_t (Suc k) ?w"
    by (rule wait_loop_skip[OF assms(1,2)])
  have "scan_message ev min_t msg = Inr (Return ?r)"
    by (rule scan_message_match[OF assms(5-9)])
  then have "scan_rep ev min_t (Tuple b msg # post) = Inr (Return ?r)"
    by simp
  with assms(4) have dec: "scan_rep ev min_t (pre @ Tuple b msg # post) = Inr (Return ?r)"
    by (simp only: scan_rep_append)
  from assms(3) have "server ev (hist ?w) ?c = Returns (pre @ Tuple b msg # post)" by simp
  from wait_loop_decided[OF this dec]
  have "wait_loop ev min_t (Suc k) ?w = (Inr ?r, ?w\<lparr>hist := hist ?w @ [?c]\<rparr>)" .
  moreover from assms(1)
  have "?w\<lparr>hist := hist ?w @ [?c]\<rparr> = w\<lparr>hist := hist w @ fetch_cmds ?n k\<rparr>"
    by (simp add: fetch_cmds_last)
  ultimately show "wait_email_code ev count min_t w =
           (Inr ?r, w\<lparr>hist := hist w @ fetch_cmds (nat count) k\<rparr>)"
    using skip by (simp add: wait_email_code_def)
next
  show "wait_email_code
           (example_env [plain_message ''Mon, 02 Nov 2026 10:00:00 +0000'' ''X <Info@X.com>''
                           ''Your X confirmation code is 482917'' ''hello''] 30)
           1 None world0 =
           (Inr (Some \<lparr>code = ''482917'', username = None\<rparr>),
            world0\<lparr>hist := [Fetch ''1'' ''(RFC822)'']\<rparr>)"
    by (simp add: wait_email_code_def example_eval)
qed

theorem wait_email_code_returns_code_witness:
  "wait_email_code (example_env example_box 30) 4 None world0 =
     (Inr (Some \<lparr>code = ''111111'', username = None\<rparr>),
      world0\<lparr>hist := [Fetch ''4'' ''(RFC822)'', Fetch ''3'' ''(RFC822)'',
                       Fetch ''2'' ''(RFC822)'']\<rparr>)"
proof -
  let ?ev = "example_env example_box 30"
  let ?m2 = "plain_message ''Sun, 01 Nov 2026 08:30:00 +0000'' ''X <info@x.com>''
               ''Your X confirmation code is 111111'' ''hello''"
  have "[Suc 1 ..< Suc 4] = [2, 3, 4]"
    by (simp add: upt_rec)
  then have f41: "fetch_cmds 4 (Suc 0) = [Fetch ''4'' ''(RFC822)'', Fetch ''3'' ''(RFC822)'',
                                Fetch ''2'' ''(RFC822)'']"
    by (simp add: fetch_cmds_def str_int_def str_nat.simps digit_chr_def)
  have h1: "Suc 1 \<le> nat 4" by simp
  have h2: "\<forall>j. Suc 1 < j \<and> j \<le> nat 4 \<longrightarrow>
           (\<exists>rep. server ?ev (hist world0 @ fetch_cmds (nat 4) j)
                     (Fetch (str_int (int j)) ''(RFC822)'') = Returns rep
                  \<and> scan_rep ?ev None rep = Inr Next)"
  proof (intro allI impI)
    fix j :: nat
    assume "Suc 1 < j \<and> j \<le> nat 4"
    then have "j = 3 \<or> j = 4" by auto
    then show "\<exists>rep. server ?ev (hist world0 @ fetch_cmds (nat 4) j)
                     (Fetch (str_int (int j)) ''(RFC822)'') = Returns rep
                  \<and> scan_rep ?ev None rep = Inr Next"
      by (elim disjE) (simp_all add: example_eval example_box_def)
  qed
  have h3: "server ?ev (hist world0 @ fetch_cmds (nat 4) (Suc 1))
               (Fetch (str_int (int (Suc 1))) ''(RFC822)'')
             = Returns ([] @ Tuple ''2 (RFC822 {1024}'' ?m2 # [Bytes '')''])"
    by (simp add: example_eval example_box_def)
  have h4: "scan_rep ?ev None [] = Inr Next" by simp
  have h5: "message_time ?ev ?m2 = Inr 1793521800" by (simp add: example_eval)
  have h6: "before_cutoff 1793521800 None = Inr False" by (simp add: before_cutoff_def)
  have h7: "contains ''info@x.com'' (lower (get_or_empty (hdr_from ?m2)))"
    by (simp add: example_eval)
  have h8: "contains ''confirmation code is'' (lower (get_or_empty (hdr_subject ?m2)))"
    by (simp add: example_eval)
  have h9: "extract_username ?m2 = Inr None" by (simp add: example_eval)
  from wait_email_code_returns_code[OF h1 h2 h3 h4 h5 h6 h7 h8 h9]
  show ?thesis
    by (simp add: f41 world0_def plain_message_def get_or_empty_def lower_def lower_chr_def
        strip_def is_space_def)
qed

section \<open>Properties of opening a session\<close>

text \<open>
  C6, as the specification states it, fails: a login that succeeds does not always
  lead to the session being returned. The \<open>select\<close> that follows the login stands in
  the same \<open>try\<close>; when the login returns and that \<open>select\<close> raises an
  \<open>imaplib.IMAP4.error\<close>, \<open>imap_login\<close> raises EmailLoginError and returns nothing.
\<close>

theorem imap_login_select_counterexample:
  "server
     \<lparr>server = (\<lambda>h c. case c of
                          Select mailbox ro \<Rightarrow> Raises (IMAP4_error ''SELECT failed'')
                        | _ \<Rightarrow> Returns [Bytes ''OK'']),
      strptime = example_strptime, clock = (\<lambda>n. 0), tws_wait_email_code = 30\<rparr>
     [Connect_IMAP4_SSL ''imap.mail.yahoo.com''] (Login ''user@yahoo.com'' ''right'')
     = Returns [Bytes ''OK'']
   \<and> imap_login
     \<lparr>server = (\<lambda>h c. case c of
                          Select mailbox ro \<Rightarrow> Raises (IMAP4_error ''SELECT failed'')
                        | _ \<Rightarrow> Returns [Bytes ''OK'']),
      strptime = example_strptime, clock = (\<lambda>n. 0), tws_wait_email_code = 30\<rparr>
     IMAP_MAPPING ''user@yahoo.com'' ''right'' world0 =
     (Inl (EmailLoginError ''Email login error'' (IMAP4_error ''SELECT failed'')),
      world0\<lparr>hist := [Connect_IMAP4_SSL ''imap.mail.yahoo.com'',
                       Login ''user@yahoo.com'' ''right'', Select ''INBOX'' True]\<rparr>)"
  by (simp add: imap_login_def get_imap_domain_def py_index_def IMAP_MAPPING_def
      connect_cmd_def imap_call_def login_error_def world0_def)

text \<open>
  C6, amended. Once the endpoint is resolved and the connection is made: when \<open>login\<close>
  raises an \<open>imaplib.IMAP4.error\<close>, \<open>imap_login\<close> raises EmailLoginError with that
  exception as its cause, and \<open>login\<close> was the last command sent, once; when \<open>login\<close>
  returns, \<open>select("INBOX", readonly=True)\<close> is the next and last command sent; when
  that \<open>select\<close> returns too the connection is returned, and when it raises an
  \<open>imaplib.IMAP4.error\<close> that exception is wrapped in EmailLoginError in the same way.
\<close>

theorem imap_login_authentication:
  assumes "get_imap_domain m email = Inr domain"
    and "connect_cmd domain = Inr c"
    and "server ev (hist w) c = Returns greeting"
  shows "(server ev (hist w @ [c]) (Login email password) = Raises (IMAP4_error reason)
          \<longrightarrow> imap_login ev m email password w =
                (Inl (EmailLoginError ''Email login error'' (IMAP4_error reason)),
                 w\<lparr>hist := hist w @ [c, Login email password]\<rparr>))
       \<and> (server ev (hist w @ [c]) (Login email password) = Returns rep
          \<longrightarrow> hist (snd (imap_login ev m email password w)) =
                hist w @ [c, Login email password, Select ''INBOX'' True])
       \<and> (server ev (hist w @ [c]) (Login email password) = Returns rep
          \<and> server ev (hist w @ [c, Login email password]) (Select ''INBOX'' True) = Returns rep'
          \<longrightarrow> imap_login ev m email password w =
                (Inr c, w\<lparr>hist := hist w @ [c, Login email password, Select ''INBOX'' True]\<rparr>))
       \<and> (server ev (hist w @ [c]) (Login email password) = Returns rep
          \<and> server ev (hist w @ [c, Login email password]) (Select ''INBOX'' True)
              = Raises (IMAP4_error reason')
          \<longrightarrow> imap_login ev m email password w =
                (Inl (EmailLoginError ''Email login error'' (IMAP4_error reason')),
                 w\<lparr>hist := hist w @ [c, Login email password, Select ''INBOX'' True]\<rparr>))"
  using assms
  by (auto simp: imap_login_def imap_call_def login_error_def split: reply.splits)

theorem imap_login_authentication_witness:
  "imap_login
     \<lparr>server = (\<lambda>h c. case c of
                          Login user pass \<Rightarrow> Raises (IMAP4_error ''LOGIN failed'')
                        | _ \<Rightarrow> Returns [Bytes ''OK'']),
      strptime = example_strptime, clock = (\<lambda>n. 0), tws_wait_email_code = 30\<rparr>
     IMAP_MAPPING ''user@yahoo.com'' ''wrong'' world0 =
     (Inl (EmailLoginError ''Email login error'' (IMAP4_error ''LOGIN failed'')),
      world0\<lparr>hist := [Connect_IMAP4_SSL ''imap.mail.yahoo.com'',
                       Login ''user@yahoo.com'' ''wrong'']\<rparr>)
   \<and> imap_login (example_env [] 30) IMAP_MAPPING ''bob@proton.me'' ''secret'' world0 =
     (Inr (Connect_IMAP4 ''127.0.0.1'' ''1143''),
      world0\<lparr>hist := [Connect_IMAP4 ''127.0.0.1'' ''1143'', Login ''bob@proton.me'' ''secret'',
                       Select ''INBOX'' True]\<rparr>)
   \<and> imap_login
     \<lparr>server = (\<lambda>h c. case c of
                          Select mailbox ro \<Rightarrow> Raises (IMAP4_error ''no such mailbox'')
                        | _ \<Rightarrow> Returns [Bytes ''OK'']),
      strptime = example_strptime, clock = (\<lambda>n. 0), tws_wait_email_code = 30\<rparr>
     IMAP_MAPPING ''ann@icloud.com'' ''secret'' world0 =
     (Inl (EmailLoginError ''Email login error'' (IMAP4_error ''no such mailbox'')),
      world0\<lparr>hist := [Connect_IMAP4_SSL ''imap.mail.me.com'', Login ''ann@icloud.com'' ''secret'',
                       Select ''INBOX'' True]\<rparr>)"
proof (intro conjI)
  let ?ev = "\<lparr>server = (\<lambda>h c. case c of
                          Login user pass \<Rightarrow> Raises (IMAP4_error ''LOGIN failed'')
                        | _ \<Rightarrow> Returns [Bytes ''OK'']),
      strptime = example_strptime, clock = (\<lambda>n. 0), tws_wait_email_code = 30\<rparr>"
  let ?c = "Connect_IMAP4_SSL ''imap.mail.yahoo.com''"
  have h1: "get_imap_domain IMAP_MAPPING ''user@yahoo.com'' = Inr ''imap.mail.yahoo.com''"
    by (simp add: get_imap_domain_def py_index_def IMAP_MAPPING_def)
  have h2: "connect_cmd ''imap.mail.yahoo.com'' = Inr ?c"
    by (simp add: connect_cmd_def)
  have h3: "server ?ev (hist world0) ?c = Returns [Bytes ''OK'']"
    by simp
  have h4: "server ?ev (hist world0 @ [?c]) (Login ''user@yahoo.com'' ''wrong'')
              = Raises (IMAP4_error ''LOGIN failed'')"
    by simp
  from imap_login_authentication[OF h1 h2 h3, where password = "''wrong''"
        and reason = "''LOGIN failed''"] h4
  show "imap_login ?ev IMAP_MAPPING ''user@yahoo.com'' ''wrong'' world0 =
     (Inl (EmailLoginError ''Email login error'' (IMAP4_error ''LOGIN failed'')),
      world0\<lparr>hist := [?c, Login ''user@yahoo.com'' ''wrong'']\<rparr>)"
    by (simp add: world0_def)
next
  let ?ev = "example_env [] 30"
  let ?c = "Connect_IMAP4 ''127.0.0.1'' ''1143''"
  have h1: "get_imap_domain IMAP_MAPPING ''bob@proton.me'' = Inr ''127.0.0.1:1143''"
    by (simp add: get_imap_domain_def py_index_def IMAP_MAPPING_def)
  have h2: "connect_cmd ''127.0.0.1:1143'' = Inr ?c"
    by (simp add: connect_cmd_def)
  have h3: "server ?ev (hist world0) ?c = Returns [Bytes ''OK'']"
    by (simp add: example_env_def mailbox_server_def)
  have h4: "server ?ev (hist world0 @ [?c]) (Login ''bob@proton.me'' ''secret'')
              = Returns [Bytes ''OK'']
          \<and> server ?ev (hist world0 @ [?c, Login ''bob@proton.me'' ''secret''])
                (Select ''INBOX'' True) = Returns [Bytes ''0'']"
    by (simp add: example_env_def mailbox_server_def str_int_def str_nat.simps digit_chr_def)
  from imap_login_authentication[OF h1 h2 h3, where password = "''secret''"
        and rep = "[Bytes ''OK'']" and rep' = "[Bytes ''0'']"] h4
  show "imap_login ?ev IMAP_MAPPING ''bob@proton.me'' ''secret'' world0 =
     (Inr ?c, world0\<lparr>hist := [?c, Login ''bob@proton.me'' ''secret'',
                                Select ''INBOX'' True]\<rparr>)"
    by (simp add: world0_def)
next
  let ?ev = "\<lparr>server = (\<lambda>h c. case c of
                          Select mailbox ro \<Rightarrow> Raises (IMAP4_error ''no such mailbox'')
                        | _ \<Rightarrow> Returns [Bytes ''OK'']),
      strptime = example_strptime, clock = (\<lambda>n. 0), tws_wait_email_code = 30\<rparr>"
  let ?c = "Connect_IMAP4_SSL ''imap.mail.me.com''"
  have h1: "get_imap_domain IMAP_MAPPING ''ann@icloud.com'' = Inr ''imap.mail.me.com''"
    by (simp add: get_imap_domain_def py_index_def IMAP_MAPPING_def)
  have h2: "connect_cmd ''imap.mail.me.com'' = Inr ?c"
    by (simp add: connect_cmd_def)
  have h3: "server ?ev (hist world0) ?c = Returns [Bytes ''OK'']"
    by simp
  have h4: "server ?ev (hist world0 @ [?c]) (Login ''ann@icloud.com'' ''secret'')
              = Returns [Bytes ''OK'']
          \<and> server ?ev (hist world0 @ [?c, Login ''ann@icloud.com'' ''secret''])
                (Select ''INBOX'' True) = Raises (IMAP4_error ''no such mailbox'')"
    by simp
  from imap_login_authentication[OF h1 h2 h3, where password = "''secret''"
        and rep = "[Bytes ''OK'']" and reason' = "''no such mailbox''"] h4
  show "imap_login ?ev IMAP_MAPPING ''ann@icloud.com'' ''secret'' world0 =
     (Inl (EmailLoginError ''Email login error'' (IMAP4_error ''no such mailbox'')),
      world0\<lparr>hist := [?c, Login ''ann@icloud.com'' ''secret'', Select ''INBOX'' True]\<rparr>)"
    by (simp add: world0_def)
qed

section \<open>Properties of the poll loop\<close>

lemma no_close_fetch_cmds: "Close \<notin> set (fetch_cmds n k)"
  by (auto simp: fetch_cmds_def)

lemma scan_once_world:
  "\<exists>h. Close \<notin> set h \<and> snd (scan_once ev min_t w) = w\<lparr>hist := hist w @ h\<rparr>"
proof (cases "server ev (hist w) (Select ''INBOX'' False)")
  case (Raises e)
  then have "snd (scan_once ev min_t w) = w\<lparr>hist := hist w @ [Select ''INBOX'' False]\<rparr>"
    by (simp add: scan_once_def imap_call_def)
  then show ?thesis by (intro exI[of _ "[Select ''INBOX'' False]"]) simp
next
  case (Returns rep)
  let ?w1 = "w\<lparr>hist := hist w @ [Select ''INBOX'' False]\<rparr>"
  show ?thesis
  proof (cases "msg_count rep")
    case (Inl e)
    with Returns have "snd (scan_once ev min_t w) = ?w1"
      by (simp add: scan_once_def imap_call_def)
    then show ?thesis by (intro exI[of _ "[Select ''INBOX'' False]"]) simp
  next
    case (Inr n)
    with Returns have s: "snd (scan_once ev min_t w) = snd (wait_loop ev min_t (nat n) ?w1)"
      by (simp add: scan_once_def imap_call_def wait_email_code_def)
    from wait_loop_hist[of "nat n" ev min_t ?w1]
    obtain k where "snd (wait_loop ev min_t (nat n) ?w1)
                      = ?w1\<lparr>hist := hist ?w1 @ fetch_cmds (nat n) k\<rparr>"
      by blast
    with s have "snd (scan_once ev min_t w)
                   = w\<lparr>hist := hist w @ (Select ''INBOX'' False # fetch_cmds (nat n) k)\<rparr>"
      by simp
    then show ?thesis
      by (intro exI[of _ "Select ''INBOX'' False # fetch_cmds (nat n) k"])
         (simp add: no_close_fetch_cmds)
  qed
qed

lemma scan_once_reads: "reads (snd (scan_once ev min_t w)) = reads w"
  and scan_once_sleeps: "sleeps (snd (scan_once ev min_t w)) = sleeps w"
  using scan_once_world[of ev min_t w] by auto

lemma poll_loop_no_close:
  assumes "poll_loop ev min_t start w = Some y"
  shows "\<exists>h. Close \<notin> set h \<and> hist (snd y) = hist w @ h"
  using assms
proof (induction rule: poll_loop.raw_induct[rotated, consumes 1, case_names step])
  case (step f ev min_t start w y)
  obtain h where h: "Close \<notin> set h"
    and sw: "snd (scan_once ev min_t w) = w\<lparr>hist := hist w @ h\<rparr>"
    using scan_once_world[of ev min_t w] by blast
  obtain r w2 where so: "scan_once ev min_t w = (r, w2)" by (cases "scan_once ev min_t w")
  with sw have w2: "w2 = w\<lparr>hist := hist w @ h\<rparr>" by simp
  show ?case
  proof (cases "\<exists>e. r = Inl e \<or> (\<exists>c. r = Inr (Some c))")
    case True
    with step(2) so have "snd y = w2" by (auto simp: split: sum.splits option.splits)
    with w2 h show ?thesis by (intro exI[of _ h]) simp
  next
    case False
    then have r: "r = Inr None" by (cases r) auto
    let ?w3 = "w2\<lparr>reads := Suc (reads w2)\<rparr>"
    show ?thesis
    proof (cases "real_of_int (tws_wait_email_code ev) < clock ev (reads w2) - start")
      case True
      with step(2) so r have "snd y = ?w3" by (auto simp: time_time_def)
      with w2 h show ?thesis by (intro exI[of _ h]) simp
    next
      case False
      with step(2) so r have "f ev min_t start (sleep5 ?w3) = Some y"
        by (simp add: time_time_def)
      note step(1)[OF this]
      then obtain h' where "Close \<notin> set h'"
        and "hist (snd y) = hist (sleep5 ?w3) @ h'" by blast
      with w2 h show ?thesis by (intro exI[of _ "h @ h'"]) (simp add: sleep5_def)
    qed
  qed
qed

lemma poll_body_no_close:
  assumes "poll_body ev min_t w = Some y"
  shows "\<exists>h. Close \<notin> set h \<and> hist (snd y) = hist w @ h"
proof -
  from assms have "poll_loop ev min_t (clock ev (reads w)) (w\<lparr>reads := Suc (reads w)\<rparr>) = Some y"
    by (simp add: poll_body_def time_time_def)
  from poll_loop_no_close[OF this] show ?thesis by simp
qed

text \<open>
  C1, as the specification states it, fails on the path that returns a result: the
  handler that selects the inbox and closes is an \<open>except\<close> clause, which a \<open>return\<close>
  does not enter. With a confirmation mail in the mailbox the call returns the code
  after one select and one fetch, and no close is sent.
\<close>

theorem imap_get_email_code_close_counterexample:
  "imap_get_email_code
     (example_env [plain_message ''Mon, 02 Nov 2026 10:00:00 +0000'' ''X <info@x.com>''
                     ''Your X confirmation code is 482917'' ''hello''] 30)
     ''user@example.com'' None world0 =
     Some (Inr \<lparr>code = ''482917'', username = None\<rparr>,
           \<lparr>hist = [Select ''INBOX'' False, Fetch ''1'' ''(RFC822)''], reads = 1, sleeps = 0\<rparr>)
   \<and> count_list [Select ''INBOX'' False, Fetch ''1'' ''(RFC822)''] Close = 0"
  by (simp add: imap_get_email_code_def poll_body_def poll_loop.simps time_time_def
      scan_once_def msg_count_def utf8_decode_def wait_email_code_def example_eval)

text \<open>
  C1, amended. When the body of the \<open>try\<close> returns a result, \<open>imap_get_email_code\<close>
  returns it and no close has been sent. When the body raises an exception (the
  timeout error, or one coming from select, fetch or the parsing of a message) and the
  two calls of the handler return, the commands sent by the call are those of the
  polling, none of which is a close, followed by one select of the inbox and one close,
  and the exception raised by the call is the one the body raised.
\<close>

theorem imap_get_email_code_cleanup:
  "(poll_body ev min_t w = Some (Inr r, w')
      \<longrightarrow> imap_get_email_code ev email min_t w = Some (Inr r, w')
          \<and> (\<exists>h. Close \<notin> set h \<and> hist w' = hist w @ h))
   \<and> (poll_body ev min_t w = Some (Inl e, w')
        \<and> server ev (hist w') (Select ''INBOX'' False) = Returns r1
        \<and> server ev (hist w' @ [Select ''INBOX'' False]) Close = Returns r2
      \<longrightarrow> (\<exists>h. Close \<notin> set h
               \<and> imap_get_email_code ev email min_t w =
                   Some (Inl e, w'\<lparr>hist := hist w @ h @ [Select ''INBOX'' False, Close]\<rparr>)))"
proof (intro conjI impI)
  assume a: "poll_body ev min_t w = Some (Inr r, w')"
  then show "imap_get_email_code ev email min_t w = Some (Inr r, w')"
    by (simp add: imap_get_email_code_def)
  from poll_body_no_close[OF a] show "\<exists>h. Close \<notin> set h \<and> hist w' = hist w @ h"
    by simp
next
  assume a: "poll_body ev min_t w = Some (Inl e, w')
        \<and> server ev (hist w') (Select ''INBOX'' False) = Returns r1
        \<and> server ev (hist w' @ [Select ''INBOX'' False]) Close = Returns r2"
  then have body: "poll_body ev min_t w = Some (Inl e, w')"
    and r1: "server ev (hist w') (Select ''INBOX'' False) = Returns r1"
    and r2: "server ev (hist w' @ [Select ''INBOX'' False]) Close = Returns r2"
    by blast+
  from poll_body_no_close[OF body] obtain h where h: "Close \<notin> set h"
    and hw: "hist w' = hist w @ h" by auto
  from r1 r2 have "cleanup_and_raise ev e w' =
      (Inl e, w'\<lparr>hist := hist w' @ [Select ''INBOX'' False, Close]\<rparr>)"
    by (simp add: cleanup_and_raise_def imap_call_def)
  with body hw have "imap_get_email_code ev email min_t w =
      Some (Inl e, w'\<lparr>hist := hist w @ h @ [Select ''INBOX'' False, Close]\<rparr>)"
    by (simp add: imap_get_email_code_def)
  with h show "\<exists>h. Close \<notin> set h
               \<and> imap_get_email_code ev email min_t w =
                   Some (Inl e, w'\<lparr>hist := hist w @ h @ [Select ''INBOX'' False, Close]\<rparr>)"
    by blast
qed

theorem imap_get_email_code_cleanup_witness:
  "(\<exists>h. Close \<notin> set h
      \<and> imap_get_email_code
          (example_env [plain_message ''yesterday'' ''X <info@x.com>''
                          ''Your X confirmation code is 482917'' ''hello''] 30)
          ''user@example.com'' None world0 =
          Some (Inl ValueError,
                \<lparr>hist = [Select ''INBOX'' False, Fetch ''1'' ''(RFC822)''],
                 reads = 1, sleeps = 0\<rparr>
                \<lparr>hist := hist world0 @ h @ [Select ''INBOX'' False, Close]\<rparr>))
   \<and> imap_get_email_code
          (example_env [plain_message ''Mon, 02 Nov 2026 10:00:00 +0000'' ''X <info@x.com>''
                          ''Your X confirmation code is 1234'' ''hello''] 30)
          ''user@example.com'' None world0 =
          Some (Inr \<lparr>code = ''1234'', username = None\<rparr>,
                \<lparr>hist = [Select ''INBOX'' False, Fetch ''1'' ''(RFC822)''],
                 reads = 1, sleeps = 0\<rparr>)"
proof
  let ?ev = "example_env [plain_message ''yesterday'' ''X <info@x.com>''
                          ''Your X confirmation code is 482917'' ''hello''] 30"
  let ?w' = "\<lparr>hist = [Select ''INBOX'' False, Fetch ''1'' ''(RFC822)''],
                 reads = 1, sleeps = 0\<rparr>"
  have body: "poll_body ?ev None world0 = Some (Inl ValueError, ?w')"
    by (simp add: poll_body_def poll_loop.simps time_time_def
        scan_once_def msg_count_def utf8_decode_def wait_email_code_def example_eval)
  have r1: "server ?ev (hist ?w') (Select ''INBOX'' False) = Returns [Bytes ''1'']"
    by (simp add: example_eval)
  have r2: "server ?ev (hist ?w' @ [Select ''INBOX'' False]) Close = Returns [Bytes ''OK'']"
    by (simp add: example_eval)
  from imap_get_email_code_cleanup[of ?ev None world0 _ _ "''user@example.com''" ValueError
        "[Bytes ''1'']" "[Bytes ''OK'']"] body r1 r2
  show "\<exists>h. Close \<notin> set h
      \<and> imap_get_email_code ?ev ''user@example.com'' None world0 =
          Some (Inl ValueError,
                ?w'\<lparr>hist := hist world0 @ h @ [Select ''INBOX'' False, Close]\<rparr>)"
    by blast
next
  let ?ev = "example_env [plain_message ''Mon, 02 Nov 2026 10:00:00 +0000'' ''X <info@x.com>''
                          ''Your X confirmation code is 1234'' ''hello''] 30"
  let ?w' = "\<lparr>hist = [Select ''INBOX'' False, Fetch ''1'' ''(RFC822)''],
                 reads = 1, sleeps = 0\<rparr>"
  have body: "poll_body ?ev None world0 =
                Some (Inr \<lparr>code = ''1234'', username = None\<rparr>, ?w')"
    by (simp add: poll_body_def poll_loop.simps time_time_def
        scan_once_def msg_count_def utf8_decode_def wait_email_code_def example_eval)
  from imap_get_email_code_cleanup[of ?ev None world0 "\<lparr>code = ''1234'', username = None\<rparr>"
        ?w' "''user@example.com''"] body
  show "imap_get_email_code ?ev ''user@example.com'' None world0 =
          Some (Inr \<lparr>code = ''1234'', username = None\<rparr>, ?w')"
    by blast
qed

lemma after_round_reads: "reads (after_round ev min_t w) = Suc (reads w)"
  and after_round_sleeps: "sleeps (after_round ev min_t w) = Suc (sleeps w)"
  by (simp_all add: after_round_def sleep5_def time_time_def scan_once_reads scan_once_sleeps)

lemma round_start_0: "round_start ev min_t w 0 = w"
  by (simp add: round_start_def)

lemma round_start_Suc:
  "round_start ev min_t w (Suc j) = round_start ev min_t (after_round ev min_t w) j"
  by (simp add: round_start_def funpow_swap1)

lemma round_start_reads: "reads (round_start ev min_t w j) = reads w + j"
  and round_start_sleeps: "sleeps (round_start ev min_t w j) = sleeps w + j"
  by (induction j arbitrary: w)
     (simp_all add: round_start_0 round_start_Suc after_round_reads after_round_sleeps)

lemma poll_loop_step_timeout:
  assumes "fst (scan_once ev min_t w) = Inr None"
    and "real_of_int (tws_wait_email_code ev) < clock ev (reads w) - start"
  shows "poll_loop ev min_t start w =
           Some (Inl (EmailCodeTimeoutError (timeout_message (tws_wait_email_code ev))),
                 snd (time_time ev (snd (scan_once ev min_t w))))"
proof -
  obtain w2 where so: "scan_once ev min_t w = (Inr None, w2)"
    using assms(1) by (cases "scan_once ev min_t w") auto
  then have "reads w2 = reads w" using scan_once_reads[of ev min_t w] by simp
  with so assms(2) show ?thesis
    by (subst poll_loop.simps) (simp add: time_time_def)
qed

lemma poll_loop_step_retry:
  assumes "fst (scan_once ev min_t w) = Inr None"
    and "\<not> real_of_int (tws_wait_email_code ev) < clock ev (reads w) - start"
  shows "poll_loop ev min_t start w = poll_loop ev min_t start (after_round ev min_t w)"
proof -
  obtain w2 where so: "scan_once ev min_t w = (Inr None, w2)"
    using assms(1) by (cases "scan_once ev min_t w") auto
  then have "reads w2 = reads w" using scan_once_reads[of ev min_t w] by simp
  with so assms(2) show ?thesis
    by (subst poll_loop.simps) (simp add: time_time_def after_round_def)
qed

lemma poll_loop_timeout:
  assumes "\<forall>j\<le>k. fst (scan_once ev min_t (round_start ev min_t w j)) = Inr None"
    and "\<forall>j<k. \<not> real_of_int (tws_wait_email_code ev) < clock ev (reads w + j) - start"
    and "real_of_int (tws_wait_email_code ev) < clock ev (reads w + k) - start"
  shows "poll_loop ev min_t start w =
           Some (Inl (EmailCodeTimeoutError (timeout_message (tws_wait_email_code ev))),
                 snd (time_time ev (snd (scan_once ev min_t (round_start ev min_t w k)))))"
  using assms
proof (induction k arbitrary: w)
  case 0
  then show ?case by (simp add: round_start_0 poll_loop_step_timeout)
next
  case (Suc k)
  from Suc.prems(1) have s0: "fst (scan_once ev min_t w) = Inr None"
    by (metis le0 round_start_0)
  from Suc.prems(2) have e0: "\<not> real_of_int (tws_wait_email_code ev) < clock ev (reads w) - start"
    by (metis add.right_neutral zero_less_Suc)
  let ?w = "after_round ev min_t w"
  have a: "\<forall>j\<le>k. fst (scan_once ev min_t (round_start ev min_t ?w j)) = Inr None"
  proof (intro allI impI)
    fix j assume "j \<le> k"
    then have "Suc j \<le> Suc k" by simp
    with Suc.prems(1) have "fst (scan_once ev min_t (round_start ev min_t w (Suc j))) = Inr None"
      by blast
    then show "fst (scan_once ev min_t (round_start ev min_t ?w j)) = Inr None"
      by (simp add: round_start_Suc)
  qed
  have b: "\<forall>j<k. \<not> real_of_int (tws_wait_email_code ev) < clock ev (reads ?w + j) - start"
  proof (intro allI impI)
    fix j assume "j < k"
    then have "Suc j < Suc k" by simp
    with Suc.prems(2)
    have "\<not> real_of_int (tws_wait_email_code ev) < clock ev (reads w + Suc j) - start"
      by blast
    then show "\<not> real_of_int (tws_wait_email_code ev) < clock ev (reads ?w + j) - start"
      by (simp add: after_round_reads)
  qed
  from Suc.prems(3)
  have c: "real_of_int (tws_wait_email_code ev) < clock ev (reads ?w + k) - start"
    by (simp add: after_round_reads)
  from Suc.IH[OF a b c] poll_loop_step_retry[OF s0 e0] show ?case
    by (simp add: round_start_Suc)
qed

text \<open>
  C2, as the specification states it, fails when the handler cannot reset the session.
  Here the mailbox is empty, the timeout is 7 and the connection is lost once two
  commands have been sent: no scan returns a match, the loop raises the timeout error at
  its second check, the \<open>select\<close> of the handler raises, and the call ends with that
  other error, no close having been sent.
\<close>

theorem imap_get_email_code_timeout_counterexample:
  "poll_body
     \<lparr>server = (\<lambda>h c. if 2 \<le> length h then Raises (OtherError ''connection lost'')
                        else mailbox_server [] h c),
      strptime = example_strptime, clock = (\<lambda>n. 5 * real n), tws_wait_email_code = 7\<rparr>
     None world0 =
     Some (Inl (EmailCodeTimeoutError ''Email code timeout (7 sec)''),
           \<lparr>hist = [Select ''INBOX'' False, Select ''INBOX'' False], reads = 3, sleeps = 1\<rparr>)
   \<and> imap_get_email_code
     \<lparr>server = (\<lambda>h c. if 2 \<le> length h then Raises (OtherError ''connection lost'')
                        else mailbox_server [] h c),
      strptime = example_strptime, clock = (\<lambda>n. 5 * real n), tws_wait_email_code = 7\<rparr>
     ''user@example.com'' None world0 =
     Some (Inl (OtherError ''connection lost''),
           \<lparr>hist = [Select ''INBOX'' False, Select ''INBOX'' False, Select ''INBOX'' False],
            reads = 3, sleeps = 1\<rparr>)
   \<and> count_list [Select ''INBOX'' False, Select ''INBOX'' False, Select ''INBOX'' False]
         Close = 0"
  by (simp add: imap_get_email_code_def cleanup_and_raise_def poll_body_def poll_loop.simps
      time_time_def sleep5_def scan_once_def msg_count_def utf8_decode_def wait_email_code_def
      timeout_message_def example_eval)

text \<open>
  C2, amended. Let the scans of the iterations 0 to \<open>k\<close> all return \<open>None\<close>, let the time
  elapsed since the start not exceed the timeout at the checks of the iterations before
  \<open>k\<close> and exceed it at the check of iteration \<open>k\<close>, and let the two calls of the handler
  return.
  Then the loop leaves at that check by raising EmailCodeTimeoutError, whose message is
  \<open>Email code timeout (N sec)\<close> with \<open>N\<close> the configured timeout; \<open>imap_get_email_code\<close>
  ends, after selecting the inbox and closing as its last two commands, by raising that
  same error; and \<open>k\<close> sleeps have been awaited.
\<close>

theorem imap_get_email_code_timeout:
  assumes "w0 = snd (time_time ev w)"
    and "wk = snd (scan_once ev min_t (round_start ev min_t w0 k))"
    and "\<forall>j\<le>k. fst (scan_once ev min_t (round_start ev min_t w0 j)) = Inr None"
    and "\<forall>j<k. \<not> real_of_int (tws_wait_email_code ev)
                   < clock ev (Suc (reads w) + j) - clock ev (reads w)"
    and "real_of_int (tws_wait_email_code ev)
           < clock ev (Suc (reads w) + k) - clock ev (reads w)"
    and "server ev (hist wk) (Select ''INBOX'' False) = Returns r1"
    and "server ev (hist wk @ [Select ''INBOX'' False]) Close = Returns r2"
  shows "poll_body ev min_t w =
           Some (Inl (EmailCodeTimeoutError
                        (''Email code timeout ('' @ str_int (tws_wait_email_code ev) @ '' sec)'')),
                 wk\<lparr>reads := Suc (reads wk)\<rparr>)
       \<and> imap_get_email_code ev email min_t w =
           Some (Inl (EmailCodeTimeoutError
                        (''Email code timeout ('' @ str_int (tws_wait_email_code ev) @ '' sec)'')),
                 wk\<lparr>hist := hist wk @ [Select ''INBOX'' False, Close],
                    reads := Suc (reads wk)\<rparr>)
       \<and> sleeps wk = sleeps w + k
       \<and> reads wk = Suc (reads w) + k"
proof -
  from assms(1) have r0: "reads w0 = Suc (reads w)" and s0: "sleeps w0 = sleeps w"
    by (simp_all add: time_time_def)
  from assms(4) r0 have early: "\<forall>j<k. \<not> real_of_int (tws_wait_email_code ev)
                   < clock ev (reads w0 + j) - clock ev (reads w)" by simp
  from assms(5) r0 have late: "real_of_int (tws_wait_email_code ev)
           < clock ev (reads w0 + k) - clock ev (reads w)" by simp
  from poll_loop_timeout[OF assms(3) early late] assms(2)
  have loop: "poll_loop ev min_t (clock ev (reads w)) w0 =
           Some (Inl (EmailCodeTimeoutError (timeout_message (tws_wait_email_code ev))),
                 wk\<lparr>reads := Suc (reads wk)\<rparr>)"
    by (simp add: time_time_def)
  with assms(1) have body: "poll_body ev min_t w =
           Some (Inl (EmailCodeTimeoutError (timeout_message (tws_wait_email_code ev))),
                 wk\<lparr>reads := Suc (reads wk)\<rparr>)"
    by (simp add: poll_body_def time_time_def)
  from assms(6,7)
  have "cleanup_and_raise ev
          (EmailCodeTimeoutError (timeout_message (tws_wait_email_code ev)))
          (wk\<lparr>reads := Suc (reads wk)\<rparr>) =
        (Inl (EmailCodeTimeoutError (timeout_message (tws_wait_email_code ev))),
         wk\<lparr>hist := hist wk @ [Select ''INBOX'' False, Close], reads := Suc (reads wk)\<rparr>)"
    by (simp add: cleanup_and_raise_def imap_call_def)
  with body have call: "imap_get_email_code ev email min_t w =
           Some (Inl (EmailCodeTimeoutError (timeout_message (tws_wait_email_code ev))),
                 wk\<lparr>hist := hist wk @ [Select ''INBOX'' False, Close],
                    reads := Suc (reads wk)\<rparr>)"
    by (simp add: imap_get_email_code_def)
  from assms(2) r0 s0 have "sleeps wk = sleeps w + k" and "reads wk = Suc (reads w) + k"
    by (simp_all add: scan_once_reads scan_once_sleeps round_start_reads round_start_sleeps)
  with body call show ?thesis by (simp add: timeout_message_def)
qed

theorem imap_get_email_code_timeout_witness:
  "imap_get_email_code (example_env [] 7) ''user@example.com'' None world0 =
     Some (Inl (EmailCodeTimeoutError ''Email code timeout (7 sec)''),
           \<lparr>hist = [Select ''INBOX'' False, Select ''INBOX'' False,
                    Select ''INBOX'' False, Close],
            reads = 3, sleeps = 1\<rparr>)"
proof -
  let ?ev = "example_env [] 7"
  let ?w0 = "\<lparr>hist = [], reads = 1, sleeps = 0\<rparr>"
  let ?w1 = "\<lparr>hist = [Select ''INBOX'' False], reads = 2, sleeps = 1\<rparr>"
  let ?wk = "\<lparr>hist = [Select ''INBOX'' False, Select ''INBOX'' False], reads = 2, sleeps = 1\<rparr>"
  have scan: "\<And>w. scan_once ?ev None w = (Inr None, w\<lparr>hist := hist w @ [Select ''INBOX'' False]\<rparr>)"
    by (simp add: scan_once_def msg_count_def utf8_decode_def wait_email_code_def example_eval)
  have rs0: "round_start ?ev None ?w0 0 = ?w0"
    by (simp add: round_start_def)
  have rs1: "round_start ?ev None ?w0 (Suc 0) = ?w1"
    by (simp add: round_start_def after_round_def scan sleep5_def time_time_def)
  have h1: "?w0 = snd (time_time ?ev world0)"
    by (simp add: time_time_def world0_def)
  have h2: "?wk = snd (scan_once ?ev None (round_start ?ev None ?w0 (Suc 0)))"
    unfolding rs1 scan by simp
  have h3: "\<forall>j\<le>Suc 0. fst (scan_once ?ev None (round_start ?ev None ?w0 j)) = Inr None"
    unfolding scan by simp
  have h4: "\<forall>j<Suc 0. \<not> real_of_int (tws_wait_email_code ?ev)
                   < clock ?ev (Suc (reads world0) + j) - clock ?ev (reads world0)"
    by (simp add: example_env_def world0_def)
  have h5: "real_of_int (tws_wait_email_code ?ev)
           < clock ?ev (Suc (reads world0) + Suc 0) - clock ?ev (reads world0)"
    by (simp add: example_env_def world0_def)
  have h6: "server ?ev (hist ?wk) (Select ''INBOX'' False) = Returns [Bytes ''0'']"
    by (simp add: example_eval)
  have h7: "server ?ev (hist ?wk @ [Select ''INBOX'' False]) Close = Returns [Bytes ''OK'']"
    by (simp add: example_eval)
  from imap_get_email_code_timeout[OF h1 h2 h3 h4 h5 h6 h7, of "''user@example.com''"]
  show ?thesis
    by (simp add: example_env_def str_int_def str_nat.simps digit_chr_def)
qed

end
